theory Spec2Isabelle
  imports Main "HOL-Library.Multiset" "HOL-Library.Sublist" "HOL-Library.AList"
begin

section \<open>The Go library functions the program calls\<close>

text \<open>
  The program is one file, \<^verbatim>\<open>magefile.go\<close>. It calls the standard library (time, sort,
  html through daz, text/template, os, io/ioutil) and two libraries of others, the HTML
  builder \<^verbatim>\<open>github.com/stevelacy/daz\<close> and the CSV decoder
  \<^verbatim>\<open>github.com/jszwec/csvutil\<close>. None of them is part of the repository. This section
  models what the program uses of them, after their documentation and sources; what the
  outside world decides (files, the clock, the template engine at work on a template that
  is not in the repository, orders that Go leaves open) is an argument of the model.
\<close>

subsection \<open>Package time\<close>

text \<open>
  A \<^verbatim>\<open>time.Time\<close> is an instant together with a location. The instant is kept as the
  number of nanoseconds since January 1, year 1, 00:00:00 UTC (the instant of Go's zero
  \<^verbatim>\<open>Time\<close>), the location as its offset in seconds east of UTC. Go stores seconds in an
  \<^verbatim>\<open>int64\<close>; the model uses unbounded integers, so it describes the library on the
  dates the library can represent.
\<close>

record Time =
  nanos :: int
  zoneOffset :: int

text \<open>The zero value \<^verbatim>\<open>time.Time{}\<close>: January 1, year 1, 00:00:00 UTC.\<close>

definition zeroTime :: Time where
  "zeroTime = \<lparr>nanos = 0, zoneOffset = 0\<rparr>"

text \<open>\<^verbatim>\<open>t.After(u)\<close>, \<^verbatim>\<open>t.Equal(u)\<close>: comparison of the instants, whatever the locations.\<close>

definition time_After :: "Time \<Rightarrow> Time \<Rightarrow> bool" where
  "time_After t u = (nanos u < nanos t)"

definition time_Equal :: "Time \<Rightarrow> Time \<Rightarrow> bool" where
  "time_Equal t u = (nanos t = nanos u)"

definition isLeap :: "int \<Rightarrow> bool" where
  "isLeap year = (year mod 4 = 0 \<and> (year mod 100 \<noteq> 0 \<or> year mod 400 = 0))"

definition daysBefore :: "int list" where
  "daysBefore = [0, 31, 59, 90, 120, 151, 181, 212, 243, 273, 304, 334, 365]"

text \<open>Days since January 1, year 1, in the location of the time.\<close>

definition absDays :: "Time \<Rightarrow> int" where
  "absDays t = (nanos t div 1000000000 + zoneOffset t) div 86400"

text \<open>
  \<^verbatim>\<open>absDate\<close>: year, month and day of a day count, by cutting off cycles of 400, 100, 4
  and 1 years, then estimating the month on 31 days.
\<close>

definition absDate :: "int \<Rightarrow> int \<times> int \<times> int" where
  "absDate d0 =
     (let n400 = d0 div 146097;
          d1 = d0 - 146097 * n400;
          c100 = d1 div 36524;
          n100 = c100 - c100 div 4;
          d2 = d1 - 36524 * n100;
          n4 = d2 div 1461;
          d3 = d2 - 1461 * n4;
          c1 = d3 div 365;
          n1 = c1 - c1 div 4;
          yday = d3 - 365 * n1;
          year = 400 * n400 + 100 * n100 + 4 * n4 + n1 + 1
      in if isLeap year \<and> yday = 31 + 29 - 1 then (year, 2, 29)
         else
           (let day = (if isLeap year \<and> yday > 31 + 29 - 1 then yday - 1 else yday);
                m = day div 31;
                end = daysBefore ! nat (m + 1)
            in if day \<ge> end then (year, m + 2, day - end + 1)
               else (year, m + 1, day - daysBefore ! nat m + 1)))"

definition time_Year :: "Time \<Rightarrow> int" where
  "time_Year t = fst (absDate (absDays t))"

definition time_Month :: "Time \<Rightarrow> int" where
  "time_Month t = fst (snd (absDate (absDays t)))"

definition time_Day :: "Time \<Rightarrow> int" where
  "time_Day t = snd (snd (absDate (absDays t)))"

definition daysSinceEpoch :: "int \<Rightarrow> int" where
  "daysSinceEpoch year =
     (let y0 = year - 1;
          n400 = y0 div 400;
          y1 = y0 - 400 * n400;
          n100 = y1 div 100;
          y2 = y1 - 100 * n100;
          n4 = y2 div 4;
          y3 = y2 - 4 * n4
      in 146097 * n400 + 36524 * n100 + 1461 * n4 + 365 * y3)"

text \<open>
  \<^verbatim>\<open>time.Date(year, month, day, hour, min, sec, nsec, time.UTC)\<close>. The month is
  normalised into the year; the carries of the smaller fields are linear, so they are
  summed.
\<close>

definition time_Date :: "int \<Rightarrow> int \<Rightarrow> int \<Rightarrow> int \<Rightarrow> int \<Rightarrow> int \<Rightarrow> int \<Rightarrow> Time" where
  "time_Date year month day hour minute sec nsec =
     (let m = (month - 1) mod 12;
          y = year + (month - 1) div 12;
          d = daysSinceEpoch y + daysBefore ! nat m
                + (if isLeap y \<and> m + 1 \<ge> 3 then 1 else 0) + (day - 1);
          s = d * 86400 + hour * 3600 + minute * 60 + sec
      in \<lparr>nanos = s * 1000000000 + nsec, zoneOffset = 0\<rparr>)"

definition longMonthNames :: "string list" where
  "longMonthNames =
     [''January'', ''February'', ''March'', ''April'', ''May'', ''June'', ''July'',
      ''August'', ''September'', ''October'', ''November'', ''December'']"

text \<open>Decimal digits of a natural number, most significant first.\<close>

fun digits :: "nat \<Rightarrow> string" where
  "digits n =
     (if n < 10 then [''0123456789'' ! n]
      else digits (n div 10) @ [''0123456789'' ! (n mod 10)])"

declare digits.simps [simp del]

text \<open>\<^verbatim>\<open>%d\<close> of \<^verbatim>\<open>fmt.Sprintf\<close> on an \<^verbatim>\<open>int\<close>.\<close>

definition itoa :: "int \<Rightarrow> string" where
  "itoa x = (if x < 0 then ''-'' @ digits (nat (- x)) else digits (nat x))"

text \<open>\<^verbatim>\<open>Month.String()\<close>.\<close>

definition month_String :: "int \<Rightarrow> string" where
  "month_String m =
     (if 1 \<le> m \<and> m \<le> 12 then longMonthNames ! nat (m - 1)
      else ''%!Month('' @ itoa m @ '')'')"

text \<open>\<^verbatim>\<open>appendInt\<close> of package time: sign, then the digits padded with zeros to a width.\<close>

definition appendInt :: "int \<Rightarrow> nat \<Rightarrow> string" where
  "appendInt x width =
     (let ds = digits (nat \<bar>x\<bar>)
      in (if x < 0 then ''-'' else '''') @ replicate (width - length ds) CHR ''0'' @ ds)"

text \<open>\<^verbatim>\<open>t.Format("2006-01-02")\<close>: the layout of the constant \<^verbatim>\<open>dateFormat\<close>.\<close>

definition time_Format_dateFormat :: "Time \<Rightarrow> string" where
  "time_Format_dateFormat t =
     appendInt (time_Year t) 4 @ ''-'' @ appendInt (time_Month t) 2 @ ''-''
       @ appendInt (time_Day t) 2"


subsection \<open>Package sort\<close>

text \<open>
  \<^verbatim>\<open>sort.Sort(data)\<close> sees the slice through \<^verbatim>\<open>Len\<close>, \<^verbatim>\<open>Less(i, j)\<close> and
  \<^verbatim>\<open>Swap(i, j)\<close> only, so what it does is a rearrangement of the positions
  \<open>0 ..< n\<close> that depends on \<open>n\<close> and on the comparisons. Its documentation promises an
  ascending order for \<^verbatim>\<open>Less\<close> and says that the sort is not guaranteed to be stable; the
  algorithm differs between releases of Go. The sorting routine is therefore an argument
  of the model: a function from the length and the comparison of positions to the list of
  the original positions in their final order. \<^verbatim>\<open>sort.Sort\<close> only swaps elements, so
  the positions it returns are those of the slice, each once: that is the first half of
  \<open>sort_contract\<close> below, under which every \<open>xs ! i\<close> of \<open>sort_Sort\<close> is in range.
\<close>

type_synonym sorter = "nat \<Rightarrow> (nat \<Rightarrow> nat \<Rightarrow> bool) \<Rightarrow> nat list"

definition sort_Sort :: "sorter \<Rightarrow> ('a \<Rightarrow> 'a \<Rightarrow> bool) \<Rightarrow> 'a list \<Rightarrow> 'a list" where
  "sort_Sort srt Less xs =
     map (\<lambda>i. xs ! i) (srt (length xs) (\<lambda>i j. Less (xs ! i) (xs ! j)))"

text \<open>\<^verbatim>\<open>Less\<close> must be a strict weak ordering of the positions.\<close>

definition strict_weak_upto :: "nat \<Rightarrow> (nat \<Rightarrow> nat \<Rightarrow> bool) \<Rightarrow> bool" where
  "strict_weak_upto n lt =
     ((\<forall>i<n. \<not> lt i i)
      \<and> (\<forall>i<n. \<forall>j<n. \<forall>k<n. lt i j \<longrightarrow> lt j k \<longrightarrow> lt i k)
      \<and> (\<forall>i<n. \<forall>j<n. \<forall>k<n. lt i k \<longrightarrow> lt i j \<or> lt j k))"

text \<open>
  What the documentation of \<^verbatim>\<open>sort.Sort\<close> promises: the result is a rearrangement (the
  routine only swaps), and no element is \<^verbatim>\<open>Less\<close> than one placed before it.
\<close>

definition sort_contract :: "sorter \<Rightarrow> bool" where
  "sort_contract srt =
     (\<forall>n lt. mset (srt n lt) = mset [0..<n]
        \<and> (strict_weak_upto n lt \<longrightarrow> sorted_wrt (\<lambda>i j. \<not> lt j i) (srt n lt)))"

text \<open>
  \<^verbatim>\<open>insertionSort\<close> of package sort: each element moves left while it is \<^verbatim>\<open>Less\<close> than
  its left neighbour. The sorted prefix is kept reversed, its last element first.
\<close>

fun insertLeft :: "(nat \<Rightarrow> nat \<Rightarrow> bool) \<Rightarrow> nat \<Rightarrow> nat list \<Rightarrow> nat list" where
  "insertLeft lt x [] = [x]"
| "insertLeft lt x (y # rp) = (if lt x y then y # insertLeft lt x rp else x # y # rp)"

definition insertionSort :: "(nat \<Rightarrow> nat \<Rightarrow> bool) \<Rightarrow> nat list \<Rightarrow> nat list" where
  "insertionSort lt p = rev (foldl (\<lambda>rp x. insertLeft lt x rp) [] p)"

text \<open>
  From Go 1.19 on, \<^verbatim>\<open>sort.Sort\<close> is an insertion sort on slices of at most 12 elements.
\<close>

definition insertionSorter :: sorter where
  "insertionSorter n lt = insertionSort lt [0..<n]"

text \<open>
  Up to Go 1.18, \<^verbatim>\<open>sort.Sort\<close> on a slice of at most 12 elements is one pass of Shell
  sort with gap 6 (\<^verbatim>\<open>if data.Less(i, i-6) { data.Swap(i, i-6) }\<close> for \<open>i\<close> from 6),
  followed by the insertion sort.
\<close>

definition shellStep :: "(nat \<Rightarrow> nat \<Rightarrow> bool) \<Rightarrow> nat list \<Rightarrow> nat \<Rightarrow> nat list" where
  "shellStep lt p i =
     (if 6 \<le> i \<and> i < length p \<and> lt (p ! i) (p ! (i - 6))
      then p[i := p ! (i - 6), i - 6 := p ! i] else p)"

definition shellSorter :: sorter where
  "shellSorter n lt = insertionSort lt (foldl (shellStep lt) [0..<n] [6..<n])"

subsection \<open>Package html and the HTML builder daz\<close>

text \<open>\<^verbatim>\<open>html.EscapeString\<close>: the five characters \<^verbatim>\<open>& ' < > "\<close> become entities.\<close>

definition escapeChar :: "char \<Rightarrow> string" where
  "escapeChar c =
     (if c = CHR ''&'' then ''&amp;''
      else if c = CHR 0x27 then ''&#39;''
      else if c = CHR ''<'' then ''&lt;''
      else if c = CHR ''>'' then ''&gt;''
      else if c = CHR 0x22 then ''&#34;''
      else [c])"

definition escape :: "string \<Rightarrow> string" where
  "escape s = concat (map escapeChar s)"

text \<open>
  A \<^verbatim>\<open>daz.Attr\<close> is a Go map, and \<^verbatim>\<open>daz.H\<close> writes the attributes of a tag by
  ranging over it. Go draws the order of every such walk anew, so the same map literal
  can be written in one order for one tag and in another for the next tag, or for the same
  tag in the next run. An \<open>attrOrder\<close> is the order of one walk: it rearranges the
  pairs. Every map of the program is walked once, by the call of \<^verbatim>\<open>daz.H\<close> it is
  passed to, so the model keeps with each map the order of its walk.
\<close>

type_synonym attrOrder = "(string \<times> string) list \<Rightarrow> (string \<times> string) list"

text \<open>
  The arguments of \<^verbatim>\<open>daz.H\<close>, by their dynamic type: a string (escaped), a
  \<^verbatim>\<open>daz.Attr\<close> (the order of its walk and the list of its pairs), a
  \<^verbatim>\<open>[]daz.HTML\<close> and a \<^verbatim>\<open>daz.HTML\<close> (rendered children, inserted as they are), and
  \<^verbatim>\<open>daz.UnsafeContent\<close> (inserted as it is). A \<^verbatim>\<open>daz.HTML\<close> is a function that returns
  the rendered text; the model keeps the text.
\<close>

datatype arg =
  Str string
  | Attr attrOrder "(string \<times> string) list"
  | HTMLs "string list"
  | HTML string
  | UnsafeContent string

definition selfClosingTags :: "string list" where
  "selfClosingTags =
     [''area'', ''br'', ''hr'', ''image'', ''input'', ''img'', ''link'', ''meta'']"

definition getAttributes :: "(string \<times> string) list \<Rightarrow> string" where
  "getAttributes attributes =
     concat (map (\<lambda>(k, v). '' '' @ escape k @ [CHR ''='', CHR 0x27] @ escape v @ [CHR 0x27])
       attributes)"

fun contentOf :: "arg \<Rightarrow> string" where
  "contentOf (Str v) = escape v"
| "contentOf (Attr ord v) = []"
| "contentOf (HTMLs v) = concat v"
| "contentOf (HTML v) = v"
| "contentOf (UnsafeContent v) = v"

fun attributesOf :: "arg \<Rightarrow> string" where
  "attributesOf (Attr ord v) = getAttributes (ord v)"
| "attributesOf _ = []"

definition H :: "string \<Rightarrow> arg list \<Rightarrow> string" where
  "H el attrs =
     (let contents = concat (map contentOf attrs);
          attributes = concat (map attributesOf attrs);
          elc = escape el
      in if elc \<in> set selfClosingTags then ''<'' @ elc @ attributes @ '' />''
         else ''<'' @ elc @ attributes @ ''>'' @ contents @ ''</'' @ elc @ ''>'')"

subsection \<open>Package text/template, the files and the other calls of GenerateSite\<close>

datatype error = Error string

record templateData =
  Title_t :: string
  Content_t :: string
  PageTitleBar_t :: string
  ExtraHeadContent_t :: string

text \<open>
  The template engine: \<^verbatim>\<open>template.New("page").Parse\<close> returns a template or an error;
  \<^verbatim>\<open>tpl.Execute\<close> writes to the buffer and returns an error or nil, and what it wrote
  before an error stays in the buffer.
\<close>

record 't templates =
  tpl_Parse :: "string \<Rightarrow> error + 't"
  tpl_Execute :: "'t \<Rightarrow> templateData \<Rightarrow> string \<times> error option"

text \<open>The directories and the files with their contents, by name.\<close>

record filesys =
  dirs :: "string list"
  files :: "(string \<times> string) list"


section \<open>The program\<close>

subsection \<open>Records and groups\<close>

text \<open>
  The slices of the program hold pointers to records and to groups. A record is not
  written after it is loaded, and a group is reached through the map alone until it is
  appended to the result, so the model keeps the records and the groups themselves.
\<close>

record readingListEntry =
  URL :: string
  Title :: string
  Description :: string
  Image_e :: string
  Date :: Time

record entryGroup =
  Date_g :: Time
  Entries :: "readingListEntry list"

definition entrySlice_Less :: "readingListEntry \<Rightarrow> readingListEntry \<Rightarrow> bool" where
  "entrySlice_Less a b = time_After (Date a) (Date b)"

definition entryGroupSlice_Less :: "entryGroup \<Rightarrow> entryGroup \<Rightarrow> bool" where
  "entryGroupSlice_Less g h = time_After (Date_g g) (Date_g h)"

subsection \<open>groupEntriesByMonth\<close>

text \<open>The key of a record: \<^verbatim>\<open>newTime\<close> of the first loop.\<close>

definition newTime :: "readingListEntry \<Rightarrow> Time" where
  "newTime entry = time_Date (time_Year (Date entry)) (time_Month (Date entry)) 1 0 0 0 0"

text \<open>
  The map \<^verbatim>\<open>groupMap\<close> is an association list with one pair for each key. The first
  loop creates the group of a key that has none, then appends the record to the group.
\<close>

type_synonym groupMap = "(Time \<times> entryGroup) list"

fun groupLoop :: "groupMap \<Rightarrow> readingListEntry list \<Rightarrow> groupMap" where
  "groupLoop groupMap [] = groupMap"
| "groupLoop groupMap (entry # entries) =
     (let k = newTime entry;
          groupMap1 =
            (if map_of groupMap k = None
             then AList.update k \<lparr>Date_g = k, Entries = []\<rparr> groupMap
             else groupMap)
      in groupLoop
           (AList.map_entry k (\<lambda>g. g\<lparr>Entries := Entries g @ [entry]\<rparr>) groupMap1)
           entries)"

text \<open>
  The second loop ranges over the map, in an order that Go leaves unspecified: the order
  is the argument \<open>iter\<close>, which rearranges the pairs of the map. Each group has its
  records sorted and is appended to \<^verbatim>\<open>o\<close>, which is sorted at the end.
\<close>

definition range_contract :: "(groupMap \<Rightarrow> groupMap) \<Rightarrow> bool" where
  "range_contract iter = (\<forall>m. mset (iter m) = mset m)"

definition groupEntriesByMonth ::
  "sorter \<Rightarrow> (groupMap \<Rightarrow> groupMap) \<Rightarrow> readingListEntry list \<Rightarrow> entryGroup list" where
  "groupEntriesByMonth srt iter entries =
     (let groupMap = groupLoop [] entries;
          o_unsorted =
            map (\<lambda>(k, grp). grp\<lparr>Entries := sort_Sort srt entrySlice_Less (Entries grp)\<rparr>)
              (iter groupMap)
      in sort_Sort srt entryGroupSlice_Less o_unsorted)"

subsection \<open>renderAnchor, renderUnsafeAnchor\<close>

text \<open>Each call builds one map \<^verbatim>\<open>attrs\<close>; \<open>ord\<close> is the order of its walk.\<close>

definition renderAnchor :: "attrOrder \<Rightarrow> string \<Rightarrow> string \<Rightarrow> bool \<Rightarrow> string" where
  "renderAnchor ord text url newTab =
     (let attrs = [(''href'', url), (''rel'', ''noopener'')];
          attrs = (if newTab then AList.update ''target'' ''_blank'' attrs else attrs)
      in H ''a'' [Attr ord attrs, Str text])"

definition renderUnsafeAnchor :: "attrOrder \<Rightarrow> string \<Rightarrow> string \<Rightarrow> bool \<Rightarrow> string" where
  "renderUnsafeAnchor ord text url newTab =
     (let attrs = [(''href'', url), (''rel'', ''noopener'')];
          attrs = (if newTab then AList.update ''target'' ''_blank'' attrs else attrs)
      in H ''a'' [Attr ord attrs, UnsafeContent text])"

subsection \<open>makeListHTML\<close>

text \<open>
  The body of the inner loop builds three maps: the attributes of the anchor, of the
  image and of the description block. The orders of their walks are the argument
  \<open>ords\<close>.
\<close>

datatype itemAttrs = AnchorAttrs | ImageAttrs | DescriptionAttrs

text \<open>The body of the inner loop: the list item of one article.\<close>

definition listItem :: "(itemAttrs \<Rightarrow> attrOrder) \<Rightarrow> readingListEntry \<Rightarrow> string" where
  "listItem ords article =
     (let titleLine =
            H ''summary''
              [HTML (renderAnchor (ords AnchorAttrs) (Title article) (URL article) False),
               Str ('' - '' @ time_Format_dateFormat (Date article))];
          descriptionContent =
            (if Description article \<noteq> [] then Description article else ''<none>'');
          detailedInfo =
            [HTML (H ''div'' [Str ''Description:'', HTML (H ''i'' [Str descriptionContent])])];
          detailedInfo =
            (if Image_e article \<noteq> []
             then detailedInfo @
               [HTML (H ''div''
                  [Str ''Image:'', HTML (H ''br'' []),
                   HTML (H ''img''
                     [Attr (ords ImageAttrs)
                        [(''src'', Image_e article), (''loading'', ''lazy''),
                         (''style'', ''max-width: 256px;'')]])])]
             else detailedInfo);
          detailedInfo =
            detailedInfo @ [Attr (ords DescriptionAttrs) [(''class'', ''description'')]]
      in H ''li'' [HTML (H ''details'' [HTML titleLine, HTML (H ''div'' detailedInfo)])])"

text \<open>
  The body of the outer loop: the header of a group and the list of its articles. The
  article at position \<open>j\<close> of the group has the orders \<open>ords j\<close>.
\<close>

definition groupPart :: "(nat \<Rightarrow> itemAttrs \<Rightarrow> attrOrder) \<Rightarrow> entryGroup \<Rightarrow> arg" where
  "groupPart ords grp =
     (let header =
            H ''h2''
              [Str (month_String (time_Month (Date_g grp)) @ '' ''
                      @ itoa (time_Year (Date_g grp)))];
          entries = map (\<lambda>(j, article). listItem (ords j) article) (enumerate 0 (Entries grp))
      in HTMLs [header, H ''ul'' [HTMLs entries]])"

text \<open>The group at position \<open>i\<close> has the orders \<open>ords i\<close>.\<close>

definition makeListHTML ::
  "(nat \<Rightarrow> nat \<Rightarrow> itemAttrs \<Rightarrow> attrOrder) \<Rightarrow> entryGroup list \<Rightarrow> string" where
  "makeListHTML ords groups =
     H ''div'' (map (\<lambda>(i, grp). groupPart (ords i) grp) (enumerate 0 groups))"

subsection \<open>renderHTMLPage\<close>

text \<open>
  The file \<^verbatim>\<open>page.template.html\<close> that is embedded into \<^verbatim>\<open>htmlPageTemplate\<close> is an
  argument. The result of \<^verbatim>\<open>tpl.Execute\<close> is dropped by the program.
\<close>

definition renderHTMLPage ::
  "'t templates \<Rightarrow> string \<Rightarrow> string \<Rightarrow> string \<Rightarrow> string \<Rightarrow> string \<Rightarrow> error + string" where
  "renderHTMLPage T pageTemplate title titleBar pageContent extraHeadeContent =
     (case tpl_Parse T pageTemplate of
        Inl err \<Rightarrow> Inl err
      | Inr tpl \<Rightarrow>
          (let (outputBuf, _) =
                 tpl_Execute T tpl
                   \<lparr>Title_t = title, Content_t = pageContent, PageTitleBar_t = titleBar,
                    ExtraHeadContent_t = extraHeadeContent\<rparr>
           in Inr outputBuf))"

subsection \<open>GenerateSite\<close>

text \<open>
  What GenerateSite finds outside the program: the files and the calls that read and write
  them, the CSV decoder, the clock, the template engine and the embedded template
  \<^verbatim>\<open>page.template.html\<close>, and the orders that Go and its libraries leave open: of the
  sort among equal elements, of the walk over \<^verbatim>\<open>groupMap\<close>, and of the walk over each
  map of attributes.
\<close>

datatype headAttrs = HeadingAttrs | InformationAttrs | RepoAnchorAttrs

record 't world =
  ioutil_ReadFile :: "filesys \<Rightarrow> string \<Rightarrow> error + string"
  csvutil_Unmarshal :: "string \<Rightarrow> error + readingListEntry list"
  time_Now :: Time
  template_pkg :: "'t templates"
  htmlPageTemplate :: string
  os_Mkdir :: "filesys \<Rightarrow> string \<Rightarrow> filesys \<times> error option"
  ioutil_WriteFile :: "filesys \<Rightarrow> string \<Rightarrow> string \<Rightarrow> filesys \<times> error option"
  sort_pkg :: sorter
  rangeOrder :: "groupMap \<Rightarrow> groupMap"
  listOrders :: "nat \<Rightarrow> nat \<Rightarrow> itemAttrs \<Rightarrow> attrOrder"
  headOrders :: "headAttrs \<Rightarrow> attrOrder"

definition pageTitle :: string where
  "pageTitle = ''akp'' @ [CHR 0x27] @ ''s reading list''"

definition pageHead :: "(headAttrs \<Rightarrow> attrOrder) \<Rightarrow> nat \<Rightarrow> Time \<Rightarrow> string" where
  "pageHead ords numArticles now =
     H ''div''
       [Attr (ords HeadingAttrs) [(''class'', ''heading'')],
        HTML (H ''h1'' [Str pageTitle]),
        HTML (H ''p''
          [Attr (ords InformationAttrs) [(''class'', ''information'')],
           UnsafeContent
             (''A mostly complete list of articles I'' @ [CHR 0x27]
                @ ''ve read<br>There are currently '' @ itoa (int numArticles)
                @ '' entries in the list<br>Last modified '' @ time_Format_dateFormat now
                @ ''<br>Repo: ''
                @ renderUnsafeAnchor (ords RepoAnchorAttrs)
                    ''<code>codemicro/readingList</code>''
                    ''https://github.com/codemicro/readingList'' False)])]"

text \<open>
  GenerateSite returns its error (\<open>None\<close> is nil) and the files as it leaves them. The
  error of \<^verbatim>\<open>os.Mkdir\<close> is dropped.
\<close>

definition GenerateSite :: "'t world \<Rightarrow> filesys \<Rightarrow> error option \<times> filesys" where
  "GenerateSite w fs =
     (case ioutil_ReadFile w fs ''readingList.csv'' of
        Inl err \<Rightarrow> (Some err, fs)
      | Inr fcont \<Rightarrow>
          (case csvutil_Unmarshal w fcont of
             Inl err \<Rightarrow> (Some err, fs)
           | Inr entries \<Rightarrow>
               (let numArticles = length entries;
                    groupedEntries = groupEntriesByMonth (sort_pkg w) (rangeOrder w) entries;
                    head = pageHead (headOrders w) numArticles (time_Now w);
                    listingHTML = makeListHTML (listOrders w) groupedEntries
                in case renderHTMLPage (template_pkg w) (htmlPageTemplate w) pageTitle head
                          listingHTML [] of
                     Inl err \<Rightarrow> (Some err, fs)
                   | Inr outputContent \<Rightarrow>
                       (let (fs1, _) = os_Mkdir w fs ''.site''
                        in case ioutil_WriteFile w fs1 ''.site/index.html'' outputContent of
                             (fs2, err) \<Rightarrow> (err, fs2)))))"

section \<open>The vocabulary of the properties\<close>

text \<open>\<open>t\<close> is not before \<open>u\<close>: \<^verbatim>\<open>t.After(u) || t.Equal(u)\<close>.\<close>

definition date_ge :: "Time \<Rightarrow> Time \<Rightarrow> bool" where
  "date_ge t u = (time_After t u \<or> time_Equal t u)"

text \<open>
  The group of a key as the first loop leaves it, and as the second loop leaves it: the
  records of the input that have the key, in the order of the input, then sorted.
\<close>

definition groupOf :: "readingListEntry list \<Rightarrow> Time \<Rightarrow> entryGroup" where
  "groupOf es k = \<lparr>Date_g = k, Entries = filter (\<lambda>e. newTime e = k) es\<rparr>"

definition sortedGroupOf :: "sorter \<Rightarrow> readingListEntry list \<Rightarrow> Time \<Rightarrow> entryGroup" where
  "sortedGroupOf srt es k =
     \<lparr>Date_g = k, Entries = sort_Sort srt entrySlice_Less (filter (\<lambda>e. newTime e = k) es)\<rparr>"

text \<open>
  A sorting routine is stable on \<open>n\<close> positions compared by \<open>lt\<close> when, for every
  position \<open>c\<close>, the positions that compare equal to \<open>c\<close> come out in their original
  order. \<^verbatim>\<open>sort.Sort\<close> is stable on a slice when its routine is stable on the positions
  of the slice, compared by \<^verbatim>\<open>Less\<close>.
\<close>

definition stable_on :: "sorter \<Rightarrow> nat \<Rightarrow> (nat \<Rightarrow> nat \<Rightarrow> bool) \<Rightarrow> bool" where
  "stable_on srt n lt =
     list_all
       (\<lambda>c. filter (\<lambda>j. \<not> lt c j \<and> \<not> lt j c) (srt n lt)
              = filter (\<lambda>j. \<not> lt c j \<and> \<not> lt j c) [0..<n])
       [0..<n]"

definition sorts_stably :: "sorter \<Rightarrow> ('a \<Rightarrow> 'a \<Rightarrow> bool) \<Rightarrow> 'a list \<Rightarrow> bool" where
  "sorts_stably srt Less xs = stable_on srt (length xs) (\<lambda>i j. Less (xs ! i) (xs ! j))"

text \<open>
  The records of a group whose dates compare equal are in the order of the input: for the
  date of every record of the input, the records of the group with an equal date are the
  records of the input with the key of the group and an equal date, in the same order.
\<close>

definition ties_in_input_order :: "readingListEntry list \<Rightarrow> entryGroup \<Rightarrow> bool" where
  "ties_in_input_order entries g =
     list_all
       (\<lambda>e0. filter (\<lambda>e. time_Equal (Date e) (Date e0)) (Entries g)
               = filter (\<lambda>e. time_Equal (Date e) (Date e0))
                   (filter (\<lambda>e. newTime e = Date_g g) entries))
       entries"

text \<open>
  The tags that makeListHTML writes, and the three ways in which one of them follows a
  \<^verbatim>\<open><\<close>: before an attribute, before \<^verbatim>\<open>>\<close>, and closing. A text has only the
  program's own markup when each \<^verbatim>\<open><\<close> in it starts one of these.
\<close>

definition programTags :: "string list" where
  "programTags =
     [''div'', ''h2'', ''ul'', ''li'', ''details'', ''summary'', ''a'', ''i'', ''br'', ''img'']"

definition tagStarts :: "string list" where
  "tagStarts = concat (map (\<lambda>t. [t @ '' '', t @ ''>'', ''/'' @ t @ ''>'']) programTags)"

fun own_markup :: "string \<Rightarrow> bool" where
  "own_markup [] = True"
| "own_markup (c # cs) =
     ((if c = CHR ''<'' then list_ex (\<lambda>t. prefix t cs) tagStarts else True) \<and> own_markup cs)"

fun arg_ok :: "arg \<Rightarrow> bool" where
  "arg_ok (Str v) = True"
| "arg_ok (Attr ord v) = True"
| "arg_ok (HTMLs v) = list_all own_markup v"
| "arg_ok (HTML v) = own_markup v"
| "arg_ok (UnsafeContent v) = own_markup v"

section \<open>Example inputs\<close>

text \<open>The two rows of the end-to-end example of the specification.\<close>

definition entryA :: readingListEntry where
  "entryA =
     \<lparr>URL = ''https://a.example'', Title = ''Title A'', Description = [], Image_e = [],
      Date = time_Date 2023 1 5 0 0 0 0\<rparr>"

definition entryB :: readingListEntry where
  "entryB =
     \<lparr>URL = ''https://b.example'', Title = ''Title B'', Description = ''Desc B'',
      Image_e = ''https://img.example/x.png'', Date = time_Date 2023 2 10 0 0 0 0\<rparr>"

definition exampleEntries :: "readingListEntry list" where
  "exampleEntries = [entryA, entryB]"

text \<open>
  Seven records of January 2023: the first of January 5, the six others of January 9.
\<close>

definition tiedEntry :: "string \<Rightarrow> int \<Rightarrow> readingListEntry" where
  "tiedEntry title day =
     \<lparr>URL = [], Title = title, Description = [], Image_e = [],
      Date = time_Date 2023 1 day 0 0 0 0\<rparr>"

definition tiedEntries :: "readingListEntry list" where
  "tiedEntries =
     [tiedEntry ''e0'' 5, tiedEntry ''e1'' 9, tiedEntry ''e2'' 9, tiedEntry ''e3'' 9,
      tiedEntry ''e4'' 9, tiedEntry ''e5'' 9, tiedEntry ''e6'' 9]"

text \<open>A record with no date, and a record whose texts hold markup.\<close>

definition undatedEntry :: readingListEntry where
  "undatedEntry =
     \<lparr>URL = ''https://c.example'', Title = ''undated'', Description = [], Image_e = [],
      Date = zeroTime\<rparr>"

definition scriptEntry :: readingListEntry where
  "scriptEntry =
     \<lparr>URL = ''https://d.example'', Title = ''<script>'', Description = ''a<b>&c'',
      Image_e = [], Date = time_Date 2023 3 7 0 0 0 0\<rparr>"

text \<open>
  Files that can always be read and written, a table that holds its header row only with
  a decoder for it, a template engine whose templates fail when they are executed, after
  \<^verbatim>\<open><html>\<close> is written, and one that cannot parse its template.
\<close>

definition simple_ReadFile :: "filesys \<Rightarrow> string \<Rightarrow> error + string" where
  "simple_ReadFile fs name =
     (case map_of (files fs) name of
        None \<Rightarrow> Inl (Error ''no such file or directory'')
      | Some content \<Rightarrow> Inr content)"

definition simple_Mkdir :: "filesys \<Rightarrow> string \<Rightarrow> filesys \<times> error option" where
  "simple_Mkdir fs name =
     (if name \<in> set (dirs fs) then (fs, Some (Error ''file exists''))
      else (fs\<lparr>dirs := dirs fs @ [name]\<rparr>, None))"

definition simple_WriteFile :: "filesys \<Rightarrow> string \<Rightarrow> string \<Rightarrow> filesys \<times> error option" where
  "simple_WriteFile fs name content = (fs\<lparr>files := AList.update name content (files fs)\<rparr>, None)"

definition headerOnly :: string where
  "headerOnly = ''url,title,description,image,date''"

definition decodeHeaderOnly :: "string \<Rightarrow> error + readingListEntry list" where
  "decodeHeaderOnly fcont =
     (if fcont = headerOnly then Inr [] else Inl (Error ''wrong number of fields''))"

definition failingExecute :: "string templates" where
  "failingExecute =
     \<lparr>tpl_Parse = (\<lambda>text. Inr text),
      tpl_Execute = (\<lambda>tpl d. (''<html>'', Some (Error ''can not evaluate field Missing'')))\<rparr>"

definition failingParse :: "string templates" where
  "failingParse =
     \<lparr>tpl_Parse = (\<lambda>text. Inl (Error ''unclosed action'')),
      tpl_Execute = (\<lambda>tpl d. ([], None))\<rparr>"

definition exampleWorld :: "string templates \<Rightarrow> string \<Rightarrow> string world" where
  "exampleWorld T pageTemplate =
     \<lparr>ioutil_ReadFile = simple_ReadFile,
      csvutil_Unmarshal = decodeHeaderOnly,
      time_Now = time_Date 2026 10 30 0 0 0 0,
      template_pkg = T,
      htmlPageTemplate = pageTemplate,
      os_Mkdir = simple_Mkdir,
      ioutil_WriteFile = simple_WriteFile,
      sort_pkg = insertionSorter,
      rangeOrder = id,
      listOrders = (\<lambda>i j m. id),
      headOrders = (\<lambda>m. id)\<rparr>"

definition exampleFiles :: filesys where
  "exampleFiles = \<lparr>dirs = [], files = [(''readingList.csv'', headerOnly)]\<rparr>"

section \<open>Lemmas\<close>

subsection \<open>sort.Sort under its contract\<close>

lemma sort_Sort_mset:
  assumes "sort_contract srt"
  shows "mset (sort_Sort srt L xs) = mset xs"
proof -
  have "mset (srt (length xs) (\<lambda>i j. L (xs ! i) (xs ! j))) = mset [0..<length xs]"
    using assms by (simp add: sort_contract_def)
  then have "mset (sort_Sort srt L xs) = image_mset (\<lambda>i. xs ! i) (mset [0..<length xs])"
    by (simp add: sort_Sort_def)
  also have "\<dots> = mset (map (\<lambda>i. xs ! i) [0..<length xs])"
    by simp
  also have "\<dots> = mset xs"
    by (simp add: map_nth)
  finally show ?thesis .
qed

lemma sort_Sort_set:
  "sort_contract srt \<Longrightarrow> set (sort_Sort srt L xs) = set xs"
  by (metis sort_Sort_mset set_mset_mset)

lemma sort_Sort_sorted:
  assumes c: "sort_contract srt"
    and key: "\<And>a b. L a b = (key b < key a)"
  shows "sorted_wrt (\<lambda>a b. (key b :: int) \<le> key a) (sort_Sort srt L xs)"
proof -
  let ?lt = "\<lambda>i j. L (xs ! i) (xs ! j)"
  have "strict_weak_upto (length xs) ?lt"
    unfolding strict_weak_upto_def key by auto
  then have "sorted_wrt (\<lambda>i j. \<not> ?lt j i) (srt (length xs) ?lt)"
    using c by (simp add: sort_contract_def)
  then show ?thesis
    by (simp add: sort_Sort_def sorted_wrt_map key not_less)
qed

lemma groupLoop_distinct:
  "distinct (map fst m) \<Longrightarrow> distinct (map fst (groupLoop m es))"
  by (induction es arbitrary: m) (simp_all add: Let_def distinct_update distinct_map_entry)

lemma groupLoop_map_of:
  "map_of (groupLoop m es) k =
     (case map_of m k of
        Some g \<Rightarrow> Some (g\<lparr>Entries := Entries g @ filter (\<lambda>e. newTime e = k) es\<rparr>)
      | None \<Rightarrow> if k \<in> newTime ` set es then Some (groupOf es k) else None)"
proof (induction es arbitrary: m)
  case Nil
  show ?case by (simp split: option.split)
next
  case (Cons e es)
  show ?case
    by (auto simp: Cons.IH Let_def map_of_map_entry update_conv' groupOf_def split: option.split)
qed

lemma groupLoop_empty_map_of:
  "map_of (groupLoop [] es) k = (if k \<in> newTime ` set es then Some (groupOf es k) else None)"
  by (simp add: groupLoop_map_of)

subsection \<open>The groups of groupEntriesByMonth\<close>

lemma groupLoop_pairs:
  assumes "(k, g) \<in> set (groupLoop [] es)"
  shows "g = groupOf es k"
proof -
  have "distinct (map fst (groupLoop [] es))"
    by (simp add: groupLoop_distinct)
  with assms have "map_of (groupLoop [] es) k = Some g"
    by simp
  then show ?thesis
    by (simp add: groupLoop_empty_map_of split: if_splits)
qed

lemma groupLoop_keys: "set (map fst (groupLoop [] es)) = newTime ` set es"
proof -
  have "set (map fst (groupLoop [] es)) = dom (map_of (groupLoop [] es))"
    by (simp add: dom_map_of_conv_image_fst)
  also have "\<dots> = newTime ` set es"
    by (auto simp: dom_def groupLoop_empty_map_of)
  finally show ?thesis .
qed

lemma groupLoop_shape:
  "groupLoop [] es = map (\<lambda>k. (k, groupOf es k)) (map fst (groupLoop [] es))"
proof -
  have "\<forall>p \<in> set (groupLoop [] es). p = (fst p, groupOf es (fst p))"
    using groupLoop_pairs by (metis prod.collapse)
  then have "map (\<lambda>p. (fst p, groupOf es (fst p))) (groupLoop [] es) = groupLoop [] es"
    by (simp add: map_idI)
  then show ?thesis by (simp add: comp_def)
qed

lemma groups_mset:
  assumes s: "sort_contract srt" and r: "range_contract iter"
  shows "mset (groupEntriesByMonth srt iter es) =
           image_mset (sortedGroupOf srt es) (mset (map fst (groupLoop [] es)))"
proof -
  let ?h = "\<lambda>(k, group). group\<lparr>Entries := sort_Sort srt entrySlice_Less (Entries group)\<rparr>"
  have "mset (groupEntriesByMonth srt iter es) = mset (map ?h (iter (groupLoop [] es)))"
    using s by (simp add: groupEntriesByMonth_def sort_Sort_mset)
  also have "\<dots> = image_mset ?h (mset (groupLoop [] es))"
    using r by (simp add: range_contract_def)
  also have "\<dots> = image_mset ?h (mset (map (\<lambda>k. (k, groupOf es k)) (map fst (groupLoop [] es))))"
    using groupLoop_shape [of es] by simp
  also have "\<dots> = image_mset (sortedGroupOf srt es) (mset (map fst (groupLoop [] es)))"
    by (simp add: multiset.map_comp comp_def sortedGroupOf_def groupOf_def)
  finally show ?thesis .
qed

lemma groups_set:
  assumes "sort_contract srt" and "range_contract iter"
  shows "set (groupEntriesByMonth srt iter es) = sortedGroupOf srt es ` newTime ` set es"
proof -
  have "set (groupEntriesByMonth srt iter es) = set_mset (mset (groupEntriesByMonth srt iter es))"
    by simp
  also have "\<dots> = sortedGroupOf srt es ` set (map fst (groupLoop [] es))"
    unfolding groups_mset [OF assms] by simp
  finally show ?thesis by (simp only: groupLoop_keys)
qed

lemma groups_keys_mset:
  assumes "sort_contract srt" and "range_contract iter"
  shows "mset (map Date_g (groupEntriesByMonth srt iter es)) = mset (map fst (groupLoop [] es))"
proof -
  define ks where "ks = map fst (groupLoop [] es)"
  have "mset (map Date_g (groupEntriesByMonth srt iter es)) =
          image_mset Date_g (image_mset (sortedGroupOf srt es) (mset ks))"
    unfolding ks_def by (simp only: mset_map groups_mset [OF assms])
  also have "\<dots> = mset ks"
    by (simp add: multiset.map_comp comp_def sortedGroupOf_def)
  finally show ?thesis by (simp only: ks_def)
qed

lemma groups_keys_distinct:
  assumes "sort_contract srt" and "range_contract iter"
  shows "distinct (map Date_g (groupEntriesByMonth srt iter es))"
  using groups_keys_mset [OF assms, of es] groupLoop_distinct [of "[]" es]
  by (metis distinct.simps(1) list.simps(8) mset_eq_imp_distinct_iff)

lemma sum_list_indicator:
  "distinct ks \<Longrightarrow>
     (\<Sum>k\<leftarrow>ks. if a = k then {#x#} else {#}) = (if a \<in> set ks then {#x#} else {#})"
  by (induction ks) auto

lemma sum_list_filter_by_key:
  "distinct ks \<Longrightarrow> f ` set es \<subseteq> set ks \<Longrightarrow>
     (\<Sum>k\<leftarrow>ks. mset (filter (\<lambda>e. f e = k) es)) = mset es"
proof (induction es)
  case Nil
  then show ?case by simp
next
  case (Cons e es)
  have "(\<Sum>k\<leftarrow>ks. mset (filter (\<lambda>e. f e = k) (e # es))) =
          (\<Sum>k\<leftarrow>ks. (if f e = k then {#e#} else {#}) + mset (filter (\<lambda>e. f e = k) es))"
    by (rule arg_cong [where f = sum_list]) auto
  also have "\<dots> = (\<Sum>k\<leftarrow>ks. if f e = k then {#e#} else {#})
                    + (\<Sum>k\<leftarrow>ks. mset (filter (\<lambda>e. f e = k) es))"
    by (simp add: sum_list_addf)
  also have "\<dots> = {#e#} + mset es"
    using Cons by (simp add: sum_list_indicator)
  finally show ?case by simp
qed

lemma sum_mset_image_list: "sum_mset (image_mset F (mset ks)) = sum_list (map F ks)"
  by (simp flip: sum_mset_sum_list)

lemma groups_union:
  assumes s: "sort_contract srt" and r: "range_contract iter"
  shows "mset (concat (map Entries (groupEntriesByMonth srt iter es))) = mset es"
proof -
  define ks where "ks = map fst (groupLoop [] es)"
  define out where "out = groupEntriesByMonth srt iter es"
  have ks: "distinct ks" "newTime ` set es \<subseteq> set ks"
    unfolding ks_def using groupLoop_keys [of es] by (simp_all add: groupLoop_distinct del: set_map)
  have out: "mset out = image_mset (sortedGroupOf srt es) (mset ks)"
    unfolding out_def ks_def by (rule groups_mset [OF s r])
  have "mset (concat (map Entries out)) = sum_mset (image_mset (\<lambda>g. mset (Entries g)) (mset out))"
    by (simp add: mset_concat comp_def sum_mset_image_list)
  also have "\<dots> = sum_mset (image_mset (\<lambda>k. mset (filter (\<lambda>e. newTime e = k) es)) (mset ks))"
    unfolding out
    by (simp add: multiset.map_comp comp_def sortedGroupOf_def sort_Sort_mset [OF s]
        del: mset_filter)
  also have "\<dots> = (\<Sum>k\<leftarrow>ks. mset (filter (\<lambda>e. newTime e = k) es))"
    by (rule sum_mset_image_list)
  also have "\<dots> = mset es"
    using ks by (rule sum_list_filter_by_key)
  finally show ?thesis by (simp only: out_def)
qed

subsection \<open>Two sorting routines that meet the contract\<close>

lemma mset_insertLeft: "mset (insertLeft lt x rp) = add_mset x (mset rp)"
  by (induction rp) simp_all

lemma set_insertLeft: "set (insertLeft lt x rp) = insert x (set rp)"
  by (metis mset_insertLeft set_mset_add_mset_insert set_mset_mset)

lemma mset_foldl_insertLeft:
  "mset (foldl (\<lambda>rp x. insertLeft lt x rp) acc p) = mset acc + mset p"
  by (induction p arbitrary: acc) (simp_all add: mset_insertLeft)

lemma mset_insertionSort: "mset (insertionSort lt p) = mset p"
  by (simp add: insertionSort_def mset_foldl_insertLeft)

lemma sorted_insertLeft:
  assumes "strict_weak_upto n lt" and "x < n" and "\<forall>y \<in> set rp. y < n"
    and "sorted_wrt (\<lambda>a b. \<not> lt a b) rp"
  shows "sorted_wrt (\<lambda>a b. \<not> lt a b) (insertLeft lt x rp)"
  using assms(3,4)
proof (induction rp)
  case Nil
  then show ?case by simp
next
  case (Cons y rp)
  have irr: "\<not> lt y x" if "lt x y"
    using that assms(1,2) Cons.prems(1) unfolding strict_weak_upto_def
    by (metis list.set_intros(1))
  have neg: "\<not> lt x z" if "\<not> lt x y" "z \<in> set rp" for z
    using that assms(1,2) Cons.prems unfolding strict_weak_upto_def
    by (metis list.set_intros(1,2) sorted_wrt.simps(2))
  show ?case
    using Cons irr neg by (auto simp: set_insertLeft)
qed

lemma sorted_foldl_insertLeft:
  assumes "strict_weak_upto n lt"
  shows "\<forall>y \<in> set acc \<union> set p. y < n \<Longrightarrow> sorted_wrt (\<lambda>a b. \<not> lt a b) acc \<Longrightarrow>
     sorted_wrt (\<lambda>a b. \<not> lt a b) (foldl (\<lambda>rp x. insertLeft lt x rp) acc p)"
proof (induction p arbitrary: acc)
  case Nil
  then show ?case by simp
next
  case (Cons x p)
  have "sorted_wrt (\<lambda>a b. \<not> lt a b) (insertLeft lt x acc)"
    using assms Cons.prems by (intro sorted_insertLeft [where n = n]) auto
  moreover have "\<forall>y \<in> set (insertLeft lt x acc) \<union> set p. y < n"
    using Cons.prems(1) by (auto simp: set_insertLeft)
  ultimately show ?case
    using Cons.IH by simp
qed

lemma sorted_insertionSort:
  assumes "strict_weak_upto n lt" and "\<forall>y \<in> set p. y < n"
  shows "sorted_wrt (\<lambda>i j. \<not> lt j i) (insertionSort lt p)"
  using sorted_foldl_insertLeft [OF assms(1), of "[]" p] assms(2)
  by (simp add: insertionSort_def sorted_wrt_rev)

lemma insertionSorter_contract: "sort_contract insertionSorter"
  by (simp add: sort_contract_def insertionSorter_def mset_insertionSort sorted_insertionSort)

lemma mset_shellStep: "mset (shellStep lt p i) = mset p"
proof (cases "6 \<le> i \<and> i < length p \<and> lt (p ! i) (p ! (i - 6))")
  case True
  then have "i - 6 < length p" "i < length p" by auto
  then have "mset (p[i := p ! (i - 6), i - 6 := p ! i]) = mset p"
    by (rule mset_swap)
  with True show ?thesis by (simp add: shellStep_def)
next
  case False
  then show ?thesis by (auto simp: shellStep_def)
qed

lemma mset_foldl_shellStep: "mset (foldl (shellStep lt) p js) = mset p"
  by (induction js arbitrary: p) (simp_all add: mset_shellStep)

lemma shellSorter_contract: "sort_contract shellSorter"
proof -
  have "sorted_wrt (\<lambda>i j. \<not> lt j i) (shellSorter n lt)" if "strict_weak_upto n lt" for n lt
  proof -
    have "set (foldl (shellStep lt) [0..<n] [6..<n]) = set [0..<n]"
      by (metis mset_foldl_shellStep set_mset_mset)
    then show ?thesis
      unfolding shellSorter_def using that by (intro sorted_insertionSort [where n = n]) auto
  qed
  then show ?thesis
    by (simp add: sort_contract_def) (simp add: shellSorter_def mset_insertionSort mset_foldl_shellStep)
qed

lemma id_range_contract: "range_contract id"
  by (simp add: range_contract_def)

lemma rev_range_contract: "range_contract rev"
  by (simp add: range_contract_def)

subsection \<open>Order and contents of the groups\<close>

lemma date_ge_nanos: "date_ge t u = (nanos u \<le> nanos t)"
  by (auto simp: date_ge_def time_After_def time_Equal_def)

lemma group_entries_sorted:
  assumes "sort_contract srt"
  shows "sorted_wrt (\<lambda>a b. date_ge (Date a) (Date b)) (Entries (sortedGroupOf srt es k))"
  using sort_Sort_sorted [OF assms, of entrySlice_Less "\<lambda>e. nanos (Date e)"]
  by (simp add: sortedGroupOf_def entrySlice_Less_def time_After_def date_ge_nanos)

lemma groups_sorted:
  assumes "sort_contract srt"
  shows "sorted_wrt (\<lambda>g h. date_ge (Date_g g) (Date_g h)) (groupEntriesByMonth srt iter es)"
  using sort_Sort_sorted [OF assms, of entryGroupSlice_Less "\<lambda>g. nanos (Date_g g)"]
  by (simp add: groupEntriesByMonth_def entryGroupSlice_Less_def time_After_def date_ge_nanos)

lemma group_entries_mset:
  assumes "sort_contract srt" and "range_contract iter"
    and "g \<in> set (groupEntriesByMonth srt iter es)"
  shows "Date_g g \<in> newTime ` set es"
    and "g = sortedGroupOf srt es (Date_g g)"
    and "mset (Entries g) = filter_mset (\<lambda>e. newTime e = Date_g g) (mset es)"
proof -
  from assms obtain k where k: "k \<in> newTime ` set es" "g = sortedGroupOf srt es k"
    by (auto simp: groups_set)
  then have d: "Date_g g = k" by (simp add: sortedGroupOf_def)
  show "Date_g g \<in> newTime ` set es" using k d by simp
  show "g = sortedGroupOf srt es (Date_g g)" using k d by simp
  show "mset (Entries g) = filter_mset (\<lambda>e. newTime e = Date_g g) (mset es)"
    using k d by (simp add: sortedGroupOf_def sort_Sort_mset [OF assms(1)])
qed

lemma group_of_entry:
  assumes s: "sort_contract srt" and r: "range_contract iter" and e: "e \<in> set es"
  shows "sortedGroupOf srt es (newTime e) \<in> set (groupEntriesByMonth srt iter es)"
    and "e \<in> set (Entries (sortedGroupOf srt es (newTime e)))"
    and "g \<in> set (groupEntriesByMonth srt iter es) \<Longrightarrow> e \<in> set (Entries g) \<Longrightarrow>
           g = sortedGroupOf srt es (newTime e)"
proof -
  show "sortedGroupOf srt es (newTime e) \<in> set (groupEntriesByMonth srt iter es)"
    using e by (simp add: groups_set [OF s r])
  show "e \<in> set (Entries (sortedGroupOf srt es (newTime e)))"
    using e by (simp add: sortedGroupOf_def sort_Sort_set [OF s])
  assume g: "g \<in> set (groupEntriesByMonth srt iter es)" and "e \<in> set (Entries g)"
  then have "e \<in># mset (Entries g)" by simp
  then have "newTime e = Date_g g"
    unfolding group_entries_mset(3) [OF s r g] by simp
  then show "g = sortedGroupOf srt es (newTime e)"
    using group_entries_mset(2) [OF s r g] by simp
qed

subsection \<open>Ties\<close>

lemma filter_insertLeft:
  assumes swo: "strict_weak_upto n lt" and c: "c < n" and x: "x < n"
  shows "\<forall>y \<in> set rp. y < n \<Longrightarrow>
     filter (\<lambda>j. \<not> lt c j \<and> \<not> lt j c) (insertLeft lt x rp) =
       (if \<not> lt c x \<and> \<not> lt x c then x # filter (\<lambda>j. \<not> lt c j \<and> \<not> lt j c) rp
        else filter (\<lambda>j. \<not> lt c j \<and> \<not> lt j c) rp)"
proof (induction rp)
  case Nil
  show ?case by simp
next
  case (Cons y rp)
  have y: "y < n" using Cons.prems by simp
  have "\<not> (\<not> lt c y \<and> \<not> lt y c)" if "lt x y" "\<not> lt c x" "\<not> lt x c"
    using that swo c x y unfolding strict_weak_upto_def by blast
  then show ?case
    using Cons by auto
qed

lemma filter_foldl_insertLeft:
  assumes swo: "strict_weak_upto n lt" and c: "c < n"
  shows "\<forall>y \<in> set acc \<union> set p. y < n \<Longrightarrow>
     filter (\<lambda>j. \<not> lt c j \<and> \<not> lt j c) (foldl (\<lambda>rp x. insertLeft lt x rp) acc p) =
       rev (filter (\<lambda>j. \<not> lt c j \<and> \<not> lt j c) p) @ filter (\<lambda>j. \<not> lt c j \<and> \<not> lt j c) acc"
proof (induction p arbitrary: acc)
  case Nil
  show ?case by simp
next
  case (Cons x p)
  have 1: "\<forall>y \<in> set (insertLeft lt x acc) \<union> set p. y < n"
    using Cons.prems by (auto simp: set_insertLeft)
  have 2: "\<forall>y \<in> set acc. y < n" "x < n"
    using Cons.prems by auto
  show ?case
    using Cons.IH [OF 1] filter_insertLeft [OF swo c 2(2) 2(1)] by simp
qed

lemma insertionSorter_stable: "strict_weak_upto n lt \<Longrightarrow> stable_on insertionSorter n lt"
  unfolding stable_on_def list_all_iff insertionSorter_def insertionSort_def
  by (simp add: filter_foldl_insertLeft rev_filter [symmetric])

lemma entries_lt_swo:
  "strict_weak_upto (length xs) (\<lambda>i j. entrySlice_Less (xs ! i) (xs ! j))"
  by (auto simp: strict_weak_upto_def entrySlice_Less_def time_After_def)

lemma sort_Sort_ties:
  assumes sc: "sort_contract srt" and st: "sorts_stably srt entrySlice_Less xs"
  shows "filter (\<lambda>e. time_Equal (Date e) d) (sort_Sort srt entrySlice_Less xs)
           = filter (\<lambda>e. time_Equal (Date e) d) xs"
proof (cases "\<exists>c<length xs. time_Equal (Date (xs ! c)) d")
  case True
  then obtain c where c: "c < length xs" "time_Equal (Date (xs ! c)) d" by blast
  let ?lt = "\<lambda>i j. entrySlice_Less (xs ! i) (xs ! j)"
  let ?E = "\<lambda>j. \<not> ?lt c j \<and> \<not> ?lt j c"
  have E: "(\<lambda>j. time_Equal (Date (xs ! j)) d) = ?E"
    using c(2) by (auto simp: entrySlice_Less_def time_After_def time_Equal_def)
  have "filter ?E (srt (length xs) ?lt) = filter ?E [0..<length xs]"
    using st c(1) unfolding sorts_stably_def stable_on_def list_all_iff by simp
  then have "map (\<lambda>i. xs ! i) (filter ?E (srt (length xs) ?lt))
               = map (\<lambda>i. xs ! i) (filter ?E [0..<length xs])"
    by simp
  then have "filter (\<lambda>e. time_Equal (Date e) d) (map (\<lambda>i. xs ! i) (srt (length xs) ?lt))
               = filter (\<lambda>e. time_Equal (Date e) d) (map (\<lambda>i. xs ! i) [0..<length xs])"
    unfolding filter_map comp_def E .
  then show ?thesis
    by (simp add: sort_Sort_def map_nth)
next
  case False
  then have "\<forall>e \<in> set xs. \<not> time_Equal (Date e) d"
    by (auto simp: in_set_conv_nth)
  then have "filter (\<lambda>e. time_Equal (Date e) d) xs = []"
    and "filter (\<lambda>e. time_Equal (Date e) d) (sort_Sort srt entrySlice_Less xs) = []"
    by (simp_all add: sort_Sort_set [OF sc])
  then show ?thesis by simp
qed

lemma insertionSorter_sorts_stably: "sorts_stably insertionSorter entrySlice_Less xs"
  unfolding sorts_stably_def using entries_lt_swo by (rule insertionSorter_stable)

lemma sortedGroupOf_ties:
  assumes "sort_contract srt"
    and "sorts_stably srt entrySlice_Less (filter (\<lambda>e. newTime e = k) es)"
  shows "ties_in_input_order es (sortedGroupOf srt es k)"
  by (simp add: ties_in_input_order_def list_all_iff sortedGroupOf_def
      sort_Sort_ties [OF assms])

lemma groups_strictly_descending:
  assumes s: "sort_contract srt" and r: "range_contract iter"
  shows "sorted_wrt (\<lambda>g h. time_After (Date_g g) (Date_g h)) (groupEntriesByMonth srt iter es)"
proof -
  let ?out = "groupEntriesByMonth srt iter es"
  have z: "zoneOffset (newTime e) = 0" for e
    by (simp add: newTime_def time_Date_def Let_def)
  have d: "distinct (map Date_g ?out)"
    using s r by (rule groups_keys_distinct)
  have k: "\<forall>g \<in> set ?out. zoneOffset (Date_g g) = 0"
    using group_entries_mset(1) [OF s r] z by fastforce
  show ?thesis
    unfolding sorted_wrt_iff_nth_less
  proof (intro allI impI)
    fix i j assume ij: "i < j" "j < length ?out"
    have "date_ge (Date_g (?out ! i)) (Date_g (?out ! j))"
      using groups_sorted [OF s, of iter es] ij by (simp add: sorted_wrt_iff_nth_less)
    moreover have "map Date_g ?out ! i \<noteq> map Date_g ?out ! j"
      using nth_eq_iff_index_eq [OF d, of i j] ij by simp
    then have "Date_g (?out ! i) \<noteq> Date_g (?out ! j)"
      using ij by simp
    moreover have "zoneOffset (Date_g (?out ! i)) = 0" "zoneOffset (Date_g (?out ! j)) = 0"
      using k ij by simp_all
    ultimately show "time_After (Date_g (?out ! i)) (Date_g (?out ! j))"
      by (auto simp: date_ge_nanos time_After_def order_less_le intro: Time.equality)
  qed
qed

subsection \<open>The order of the map, the zero date, the page\<close>

lemma sorted_wrt_asym_unique:
  assumes asym: "\<And>a b. R a b \<Longrightarrow> \<not> R b a"
  shows "sorted_wrt R xs \<Longrightarrow> sorted_wrt R ys \<Longrightarrow> mset xs = mset ys \<Longrightarrow> xs = ys"
proof (induction xs arbitrary: ys)
  case Nil
  then show ?case by simp
next
  case (Cons x xs)
  then obtain y ys' where ys: "ys = y # ys'"
    by (cases ys) auto
  have "x = y"
  proof (rule ccontr)
    assume ne: "x \<noteq> y"
    have "x \<in> set ys" "y \<in> set (x # xs)"
      using Cons.prems(3) ys by (metis list.set_intros(1) mset_eq_setD)+
    then have "x \<in> set ys'" "y \<in> set xs"
      using ne ys by auto
    then have "R y x" "R x y"
      using Cons.prems(1,2) ys by auto
    then show False using asym by blast
  qed
  moreover have "xs = ys'"
    using Cons.IH [of ys'] Cons.prems ys \<open>x = y\<close> by simp
  ultimately show ?case using ys by simp
qed

lemma groups_iter_independent:
  assumes s: "sort_contract srt" and r1: "range_contract iter1" and r2: "range_contract iter2"
  shows "groupEntriesByMonth srt iter1 es = groupEntriesByMonth srt iter2 es"
proof (rule sorted_wrt_asym_unique)
  show "sorted_wrt (\<lambda>g h. time_After (Date_g g) (Date_g h)) (groupEntriesByMonth srt iter1 es)"
    using s r1 by (rule groups_strictly_descending)
  show "sorted_wrt (\<lambda>g h. time_After (Date_g g) (Date_g h)) (groupEntriesByMonth srt iter2 es)"
    using s r2 by (rule groups_strictly_descending)
  show "mset (groupEntriesByMonth srt iter1 es) = mset (groupEntriesByMonth srt iter2 es)"
    by (simp only: groups_mset [OF s r1] groups_mset [OF s r2])
  show "\<not> time_After (Date_g b) (Date_g a)" if "time_After (Date_g a) (Date_g b)"
    for a b :: entryGroup
    using that by (simp add: time_After_def)
qed

lemma zeroTime_Year: "time_Year zeroTime = 1"
  by code_simp

lemma zeroTime_Month: "time_Month zeroTime = 1"
  by code_simp

lemma zeroTime_key: "time_Date 1 1 1 0 0 0 0 = zeroTime"
  by code_simp

lemma newTime_zero: "Date e = zeroTime \<Longrightarrow> newTime e = zeroTime"
  by (simp add: newTime_def zeroTime_Year zeroTime_Month zeroTime_key)

lemma renderHTMLPage_Inl:
  "renderHTMLPage T tpl a b c d = Inl (e :: error) \<longleftrightarrow> tpl_Parse T tpl = Inl e"
  by (simp add: renderHTMLPage_def split: sum.split prod.split)

lemma renderHTMLPage_Inr:
  "tpl_Parse T tpl = Inr t \<Longrightarrow>
     renderHTMLPage T tpl a b c d =
       Inr (fst (tpl_Execute T t \<lparr>Title_t = a, Content_t = c, PageTitleBar_t = b,
                                   ExtraHeadContent_t = d\<rparr>))"
  by (simp add: renderHTMLPage_def split: prod.split)

lemma makeListHTML_Nil: "makeListHTML ords [] = ''<div></div>''"
  by (simp add: makeListHTML_def H_def escape_def escapeChar_def selfClosingTags_def)

lemma GenerateSite_read_error:
  "ioutil_ReadFile w fs ''readingList.csv'' = Inl e \<Longrightarrow> GenerateSite w fs = (Some e, fs)"
  by (simp add: GenerateSite_def)

lemma GenerateSite_csv_error:
  "ioutil_ReadFile w fs ''readingList.csv'' = Inr fcont \<Longrightarrow> csvutil_Unmarshal w fcont = Inl e \<Longrightarrow>
     GenerateSite w fs = (Some e, fs)"
  by (simp add: GenerateSite_def)

lemma GenerateSite_parse_error:
  "ioutil_ReadFile w fs ''readingList.csv'' = Inr fcont \<Longrightarrow> csvutil_Unmarshal w fcont = Inr es \<Longrightarrow>
   tpl_Parse (template_pkg w) (htmlPageTemplate w) = Inl e \<Longrightarrow>
     GenerateSite w fs = (Some e, fs)"
  by (simp add: GenerateSite_def Let_def renderHTMLPage_def)

subsection \<open>The markup of makeListHTML\<close>

lemma tag_start_append:
  "list_ex (\<lambda>t. prefix t a) ts \<Longrightarrow> list_ex (\<lambda>t. prefix t (a @ b)) ts"
  unfolding list_ex_iff using prefix_prefix by blast

lemma own_markup_append: "own_markup a \<Longrightarrow> own_markup b \<Longrightarrow> own_markup (a @ b)"
  by (induction a) (simp_all add: tag_start_append)

lemma own_markup_concat: "(\<forall>s \<in> set ss. own_markup s) \<Longrightarrow> own_markup (concat ss)"
  by (induction ss) (simp_all add: own_markup_append)

lemma own_markup_no_lt: "CHR ''<'' \<notin> set s \<Longrightarrow> own_markup s"
  by (induction s) auto

lemma escapeChar_no_lt: "CHR ''<'' \<notin> set (escapeChar c)"
  by (simp add: escapeChar_def)

lemma escape_no_lt: "CHR ''<'' \<notin> set (escape s)"
  by (simp add: escape_def escapeChar_no_lt)

lemma escapeChar_no_gt: "CHR ''>'' \<notin> set (escapeChar c)"
  by (simp add: escapeChar_def)

lemma escape_no_gt: "CHR ''>'' \<notin> set (escape s)"
  by (simp add: escape_def escapeChar_no_gt)

lemma getAttributes_no_lt: "CHR ''<'' \<notin> set (getAttributes kvs)"
  by (induction kvs) (auto simp: getAttributes_def escape_no_lt)

lemma attributesOf_no_lt: "CHR ''<'' \<notin> set (attributesOf a)"
  by (cases a) (simp_all add: getAttributes_no_lt)

lemma own_markup_contentOf: "arg_ok a \<Longrightarrow> own_markup (contentOf a)"
  by (cases a) (simp_all add: own_markup_no_lt escape_no_lt own_markup_concat list_all_iff)

lemma escape_tags: "el \<in> set programTags \<Longrightarrow> escape el = el"
  by (auto simp: programTags_def escape_def escapeChar_def)

lemma getAttributes_start: "getAttributes kvs = [] \<or> (\<exists>r. getAttributes kvs = '' '' @ r)"
  by (cases kvs) (auto simp: getAttributes_def)

lemma attributesOf_start: "attributesOf a = [] \<or> (\<exists>r. attributesOf a = '' '' @ r)"
  using getAttributes_start by (cases a) auto

lemma attributes_start:
  "concat (map attributesOf attrs) = []
     \<or> (\<exists>r. concat (map attributesOf attrs) = '' '' @ r)"
proof (induction attrs)
  case Nil
  show ?case by simp
next
  case (Cons a attrs)
  show ?case
    using attributesOf_start [of a] Cons by auto
qed

lemma attributes_no_lt: "CHR ''<'' \<notin> set (concat (map attributesOf attrs))"
  by (simp add: attributesOf_no_lt)

lemma own_markup_tag:
  assumes el: "el \<in> set programTags"
    and at: "attributes = [] \<or> (\<exists>r. attributes = '' '' @ r)"
    and nl: "CHR ''<'' \<notin> set attributes"
    and rest: "rest = ''>'' \<or> rest = '' />''"
  shows "own_markup (''<'' @ el @ attributes @ rest)"
proof -
  have "CHR ''<'' \<notin> set el"
    using el by (auto simp: programTags_def)
  then have "CHR ''<'' \<notin> set (el @ attributes @ rest)"
    using nl rest by auto
  then have 1: "own_markup (el @ attributes @ rest)"
    by (rule own_markup_no_lt)
  have st: "el @ '' '' \<in> set tagStarts" "el @ ''>'' \<in> set tagStarts"
    using el by (auto simp: tagStarts_def)
  have "prefix (el @ '' '') (el @ attributes @ rest) \<or> prefix (el @ ''>'') (el @ attributes @ rest)"
    using at rest by auto
  then have "list_ex (\<lambda>t. prefix t (el @ attributes @ rest)) tagStarts"
    unfolding list_ex_iff using st by blast
  with 1 show ?thesis by simp
qed

lemma own_markup_close:
  assumes "el \<in> set programTags"
  shows "own_markup (''</'' @ el @ ''>'')"
  using assms by (auto simp: programTags_def tagStarts_def)

lemma own_markup_H:
  assumes el: "el \<in> set programTags" and args: "\<forall>a \<in> set attrs. arg_ok a"
  shows "own_markup (H el attrs)"
proof -
  let ?attributes = "concat (map attributesOf attrs)"
  let ?contents = "concat (map contentOf attrs)"
  have c: "own_markup ?contents"
    using args by (intro own_markup_concat) (auto simp: own_markup_contentOf)
  have o1: "own_markup (''<'' @ el @ ?attributes @ ''>'')"
    by (rule own_markup_tag [OF el attributes_start attributes_no_lt]) simp
  have o2: "own_markup (''<'' @ el @ ?attributes @ '' />'')"
    by (rule own_markup_tag [OF el attributes_start attributes_no_lt]) simp
  have "own_markup (?contents @ (''</'' @ el @ ''>''))"
    using c own_markup_close [OF el] by (rule own_markup_append)
  with o1 have "own_markup ((''<'' @ el @ ?attributes @ ''>'') @ ?contents @ (''</'' @ el @ ''>''))"
    by (rule own_markup_append)
  then show ?thesis
    using o2 by (simp add: H_def Let_def escape_tags [OF el])
qed

lemma own_markup_renderAnchor: "own_markup (renderAnchor ord text url newTab)"
  by (simp add: renderAnchor_def Let_def own_markup_H programTags_def)

lemma own_markup_listItem: "own_markup (listItem ords article)"
  by (simp add: listItem_def Let_def own_markup_H own_markup_renderAnchor programTags_def)

lemma own_markup_groupPart: "arg_ok (groupPart ords grp)"
proof -
  have "list_all own_markup
          (map (\<lambda>(j, article). listItem (ords j) article) (enumerate 0 (Entries grp)))"
    by (simp add: list_all_iff own_markup_listItem case_prod_beta)
  then show ?thesis
    by (simp add: groupPart_def Let_def own_markup_H programTags_def)
qed

lemma own_markup_makeListHTML: "own_markup (makeListHTML ords groups)"
  unfolding makeListHTML_def
  by (rule own_markup_H) (simp_all add: programTags_def own_markup_groupPart case_prod_beta)

lemma own_markup_suffix: "own_markup (a @ b) \<Longrightarrow> own_markup b"
  by (induction a) simp_all

lemma own_markup_no_script:
  assumes "own_markup s"
  shows "\<not> sublist ''<script'' s"
proof
  assume "sublist ''<script'' s"
  then obtain ps ss where "s = ps @ ''<script'' @ ss"
    by (auto simp: sublist_def)
  with assms have "own_markup (''<script'' @ ss)"
    using own_markup_suffix by blast
  then show False
    by (simp add: tagStarts_def programTags_def)
qed

subsection \<open>Empty and one-element inputs\<close>

lemma sort_Sort_Nil: "sort_contract srt \<Longrightarrow> sort_Sort srt L [] = []"
  using sort_Sort_mset [of srt L "[]"] by simp

lemma sort_Sort_single: "sort_contract srt \<Longrightarrow> sort_Sort srt L [x] = [x]"
  using sort_Sort_mset [of srt L "[x]"] by simp

lemma range_single: "range_contract iter \<Longrightarrow> iter [x] = [x]"
  unfolding range_contract_def by (metis mset.simps(1) mset.simps(2) mset_single_iff_right)

lemma groupEntriesByMonth_single:
  assumes "sort_contract srt" and "range_contract iter"
  shows "groupEntriesByMonth srt iter [e] = [\<lparr>Date_g = newTime e, Entries = [e]\<rparr>]"
proof -
  have "groupLoop [] [e] = [(newTime e, \<lparr>Date_g = newTime e, Entries = [e]\<rparr>)]"
    by (simp add: Let_def)
  then show ?thesis
    by (simp add: groupEntriesByMonth_def range_single [OF assms(2)]
        sort_Sort_single [OF assms(1)])
qed

lemma groupEntriesByMonth_Nil:
  assumes "sort_contract srt" and "range_contract iter"
  shows "groupEntriesByMonth srt iter [] = []"
proof -
  have "iter [] = []"
    using assms(2) by (metis mset_zero_iff range_contract_def)
  then show ?thesis
    by (simp add: groupEntriesByMonth_def sort_Sort_Nil [OF assms(1)])
qed

subsection \<open>The programs at the example inputs\<close>

lemma jan5: "time_Date 2023 1 5 0 0 0 0 = \<lparr>nanos = 63808473600000000000, zoneOffset = 0\<rparr>"
  by code_simp
lemma jan9: "time_Date 2023 1 9 0 0 0 0 = \<lparr>nanos = 63808819200000000000, zoneOffset = 0\<rparr>"
  by code_simp
lemma jan5_key:
  "time_Date (time_Year \<lparr>nanos = 63808473600000000000, zoneOffset = 0\<rparr>)
     (time_Month \<lparr>nanos = 63808473600000000000, zoneOffset = 0\<rparr>) 1 0 0 0 0
   = \<lparr>nanos = 63808128000000000000, zoneOffset = 0\<rparr>"
  by code_simp
lemma jan9_key:
  "time_Date (time_Year \<lparr>nanos = 63808819200000000000, zoneOffset = 0\<rparr>)
     (time_Month \<lparr>nanos = 63808819200000000000, zoneOffset = 0\<rparr>) 1 0 0 0 0
   = \<lparr>nanos = 63808128000000000000, zoneOffset = 0\<rparr>"
  by code_simp
lemma tiedEntry_key:
  "newTime (tiedEntry t 5) = \<lparr>nanos = 63808128000000000000, zoneOffset = 0\<rparr>"
  "newTime (tiedEntry t 9) = \<lparr>nanos = 63808128000000000000, zoneOffset = 0\<rparr>"
  by (simp_all add: newTime_def tiedEntry_def jan5 jan9 jan5_key jan9_key)
lemma tiedEntry_Date:
  "Date (tiedEntry t 5) = \<lparr>nanos = 63808473600000000000, zoneOffset = 0\<rparr>"
  "Date (tiedEntry t 9) = \<lparr>nanos = 63808819200000000000, zoneOffset = 0\<rparr>"
  by (simp_all add: tiedEntry_def jan5 jan9)

lemma tied_out:
  "groupEntriesByMonth shellSorter id tiedEntries =
     [\<lparr>Date_g = \<lparr>nanos = 63808128000000000000, zoneOffset = 0\<rparr>,
       Entries = [tiedEntry ''e6'' 9, tiedEntry ''e1'' 9, tiedEntry ''e2'' 9, tiedEntry ''e3'' 9,
                  tiedEntry ''e4'' 9, tiedEntry ''e5'' 9, tiedEntry ''e0'' 5]\<rparr>]"
  by code_simp

lemma tied_unstable:
  "\<not> list_all (ties_in_input_order tiedEntries) (groupEntriesByMonth shellSorter id tiedEntries)"
proof
  let ?g = "\<lparr>Date_g = \<lparr>nanos = 63808128000000000000, zoneOffset = 0\<rparr>,
       Entries = [tiedEntry ''e6'' 9, tiedEntry ''e1'' 9, tiedEntry ''e2'' 9, tiedEntry ''e3'' 9,
                  tiedEntry ''e4'' 9, tiedEntry ''e5'' 9, tiedEntry ''e0'' 5]\<rparr>"
  let ?same = "\<lambda>e. time_Equal (Date e) (Date (tiedEntry ''e1'' 9))"
  have l: "filter ?same (Entries ?g) =
      [tiedEntry ''e6'' 9, tiedEntry ''e1'' 9, tiedEntry ''e2'' 9, tiedEntry ''e3'' 9,
       tiedEntry ''e4'' 9, tiedEntry ''e5'' 9]"
    by (simp add: tiedEntry_Date time_Equal_def)
  have r: "filter ?same (filter (\<lambda>e. newTime e = Date_g ?g) tiedEntries) =
      [tiedEntry ''e1'' 9, tiedEntry ''e2'' 9, tiedEntry ''e3'' 9,
       tiedEntry ''e4'' 9, tiedEntry ''e5'' 9, tiedEntry ''e6'' 9]"
    by (simp add: tiedEntries_def tiedEntry_key tiedEntry_Date time_Equal_def)
  have ne: "tiedEntry ''e6'' 9 \<noteq> tiedEntry ''e1'' 9"
    by (simp add: tiedEntry_def)
  assume "list_all (ties_in_input_order tiedEntries) (groupEntriesByMonth shellSorter id tiedEntries)"
  then have "ties_in_input_order tiedEntries ?g"
    by (simp only: tied_out list.pred_inject)
  then have "\<forall>e0 \<in> set tiedEntries.
      filter (\<lambda>e. time_Equal (Date e) (Date e0)) (Entries ?g)
        = filter (\<lambda>e. time_Equal (Date e) (Date e0))
            (filter (\<lambda>e. newTime e = Date_g ?g) tiedEntries)"
    by (simp only: ties_in_input_order_def list_all_iff)
  moreover have "tiedEntry ''e1'' 9 \<in> set tiedEntries"
    by (simp add: tiedEntries_def)
  ultimately have "filter ?same (Entries ?g)
        = filter ?same (filter (\<lambda>e. newTime e = Date_g ?g) tiedEntries)"
    by (rule bspec)
  then have "tiedEntry ''e6'' 9 = tiedEntry ''e1'' 9"
    unfolding l r by (rule list.inject [THEN iffD1, THEN conjunct1])
  with ne show False by (rule notE)
qed

lemma escape_literals:
  "escape ''a'' = ''a''" "escape ''i'' = ''i''" "escape ''br'' = ''br''" "escape ''img'' = ''img''"
  "escape ''div'' = ''div''" "escape ''li'' = ''li''" "escape ''ul'' = ''ul''" "escape ''h2'' = ''h2''"
  "escape ''details'' = ''details''" "escape ''summary'' = ''summary''"
  "escape ''Description:'' = ''Description:''" "escape ''Image:'' = ''Image:''"
  by (simp_all add: escape_def escapeChar_def)

lemma renderAnchor_shape:
  "renderAnchor ord text url False =
     ''<a'' @ getAttributes (ord [(''href'', url), (''rel'', ''noopener'')]) @ ''>''
       @ escape text @ ''</a>''"
  by (simp add: renderAnchor_def H_def escape_literals selfClosingTags_def)

lemma listItem_shape:
  "listItem ords article =
     ''<li><details><summary>''
       @ renderAnchor (ords AnchorAttrs) (Title article) (URL article) False
       @ escape ('' - '' @ time_Format_dateFormat (Date article))
       @ ''</summary><div''
       @ getAttributes (ords DescriptionAttrs [(''class'', ''description'')])
       @ ''><div>Description:<i>''
       @ escape (if Description article \<noteq> [] then Description article else ''<none>'')
       @ ''</i></div>''
       @ (if Image_e article \<noteq> []
          then ''<div>Image:<br /><img''
                 @ getAttributes
                     (ords ImageAttrs
                        [(''src'', Image_e article), (''loading'', ''lazy''),
                         (''style'', ''max-width: 256px;'')])
                 @ '' /></div>''
          else [])
       @ ''</div></details></li>''"
  by (simp add: listItem_def H_def escape_literals selfClosingTags_def)

lemma groupPart_shape:
  "groupPart ords grp =
     HTMLs [''<h2>'' @ escape (month_String (time_Month (Date_g grp)) @ '' ''
                               @ itoa (time_Year (Date_g grp))) @ ''</h2>'',
            ''<ul>''
              @ concat (map (\<lambda>(j, article). listItem (ords j) article)
                          (enumerate 0 (Entries grp)))
              @ ''</ul>'']"
  by (simp add: groupPart_def H_def escape_literals selfClosingTags_def)

lemma concat_map_empty: "concat (map (\<lambda>x. []) xs) = []"
  by (induction xs) simp_all

lemma groupPart_no_attributes: "attributesOf (groupPart ords grp) = []"
  by (simp add: groupPart_shape)

lemma makeListHTML_shape:
  "makeListHTML ords groups =
     ''<div>''
       @ concat (map (\<lambda>(i, grp). contentOf (groupPart (ords i) grp)) (enumerate 0 groups))
       @ ''</div>''"
  by (simp add: makeListHTML_def H_def escape_literals selfClosingTags_def
      groupPart_no_attributes comp_def case_prod_unfold concat_map_empty)

lemma march7: "time_Format_dateFormat (time_Date 2023 3 7 0 0 0 0) = ''2023-03-07''"
  by code_simp

lemma escape_script: "escape ''<script>'' = ''&lt;script&gt;''"
  by (simp add: escape_def escapeChar_def)

lemma undated_groups:
  "groupEntriesByMonth insertionSorter id [undatedEntry] =
     [\<lparr>Date_g = zeroTime, Entries = [undatedEntry]\<rparr>]"
proof -
  have "newTime undatedEntry = zeroTime"
    by (rule newTime_zero) (simp add: undatedEntry_def)
  then show ?thesis
    by (simp add: groupEntriesByMonth_def sort_Sort_single [OF insertionSorter_contract])
qed

section \<open>The claims\<close>

subsection \<open>C1: descending order\<close>

text \<open>
  C1. For every input sequence of records, and whatever the order in which the map is
  walked and the routine that \<^verbatim>\<open>sort.Sort\<close> is, the records of each group of the output of
  groupEntriesByMonth are in descending order of their dates, and the groups are in
  descending order of their key dates: the date of an element is never before the date of
  an element that comes later, so in particular not before that of the next one.
\<close>

theorem groupEntriesByMonth_descending:
  assumes "sort_contract srt" and "range_contract iter"
  shows "(\<forall>g \<in> set (groupEntriesByMonth srt iter entries).
            sorted_wrt (\<lambda>a b. date_ge (Date a) (Date b)) (Entries g))
         \<and> sorted_wrt (\<lambda>g h. date_ge (Date_g g) (Date_g h))
             (groupEntriesByMonth srt iter entries)"
  using assms by (auto simp: groups_set groups_sorted group_entries_sorted)

text \<open>
  The theorem at the seven records of January 2023, sorted by the routine of Go up to
  1.18, the map walked backwards.
\<close>

theorem groupEntriesByMonth_descending_witness:
  "sort_contract shellSorter \<and> range_contract rev
   \<and> list_all (\<lambda>g. sorted_wrt (\<lambda>a b. date_ge (Date a) (Date b)) (Entries g))
         (groupEntriesByMonth shellSorter rev tiedEntries)
   \<and> sorted_wrt (\<lambda>g h. date_ge (Date_g g) (Date_g h))
         (groupEntriesByMonth shellSorter rev tiedEntries)"
  using groupEntriesByMonth_descending [OF shellSorter_contract rev_range_contract, of tiedEntries]
    shellSorter_contract rev_range_contract
  by (simp add: list_all_iff)

subsection \<open>C2: the groups are a partition of the input\<close>

text \<open>
  C2. For every input sequence of records, the groups of groupEntriesByMonth hold the
  records of the input, each as often as the input has it; no two groups have the same
  key; a group holds the records whose key is the key of the group; so every record of
  the input is in exactly one group, the one whose key is the first day of the month of
  the record's date, at midnight UTC.
\<close>

theorem groupEntriesByMonth_partition:
  assumes "sort_contract srt" and "range_contract iter"
  shows "mset (concat (map Entries (groupEntriesByMonth srt iter entries))) = mset entries
         \<and> distinct (map Date_g (groupEntriesByMonth srt iter entries))
         \<and> (\<forall>g \<in> set (groupEntriesByMonth srt iter entries).
              mset (Entries g) = filter_mset (\<lambda>e. newTime e = Date_g g) (mset entries))
         \<and> (\<forall>e \<in> set entries.
              \<exists>!g. g \<in> set (groupEntriesByMonth srt iter entries) \<and> e \<in> set (Entries g))
         \<and> (\<forall>e \<in> set entries. \<forall>g \<in> set (groupEntriesByMonth srt iter entries).
              e \<in> set (Entries g) \<longleftrightarrow>
              Date_g g = time_Date (time_Year (Date e)) (time_Month (Date e)) 1 0 0 0 0)"
proof (intro conjI ballI)
  show "mset (concat (map Entries (groupEntriesByMonth srt iter entries))) = mset entries"
    using assms by (rule groups_union)
  show "distinct (map Date_g (groupEntriesByMonth srt iter entries))"
    using assms by (rule groups_keys_distinct)
next
  fix g assume "g \<in> set (groupEntriesByMonth srt iter entries)"
  then show "mset (Entries g) = filter_mset (\<lambda>e. newTime e = Date_g g) (mset entries)"
    using assms by (simp add: group_entries_mset(3))
next
  fix e assume e: "e \<in> set entries"
  show "\<exists>!g. g \<in> set (groupEntriesByMonth srt iter entries) \<and> e \<in> set (Entries g)"
    using group_of_entry [OF assms e] by blast
next
  fix e g assume e: "e \<in> set entries" and g: "g \<in> set (groupEntriesByMonth srt iter entries)"
  have "e \<in> set (Entries g) \<longleftrightarrow> e \<in># mset (Entries g)" by simp
  also have "\<dots> \<longleftrightarrow> newTime e = Date_g g"
    unfolding group_entries_mset(3) [OF assms g] using e by simp
  finally show "e \<in> set (Entries g) \<longleftrightarrow>
      Date_g g = time_Date (time_Year (Date e)) (time_Month (Date e)) 1 0 0 0 0"
    by (auto simp: newTime_def)
qed

text \<open>The theorem at the two rows of the example, whose months differ.\<close>

theorem groupEntriesByMonth_partition_witness:
  "sort_contract insertionSorter \<and> range_contract id
   \<and> mset (concat (map Entries (groupEntriesByMonth insertionSorter id exampleEntries)))
       = mset exampleEntries
   \<and> distinct (map Date_g (groupEntriesByMonth insertionSorter id exampleEntries))
   \<and> list_all
        (\<lambda>g. mset (Entries g) = filter_mset (\<lambda>e. newTime e = Date_g g) (mset exampleEntries))
        (groupEntriesByMonth insertionSorter id exampleEntries)
   \<and> list_all
        (\<lambda>e. \<exists>!g. g \<in> set (groupEntriesByMonth insertionSorter id exampleEntries)
                \<and> e \<in> set (Entries g))
        exampleEntries"
  using groupEntriesByMonth_partition [OF insertionSorter_contract id_range_contract, of exampleEntries]
    insertionSorter_contract id_range_contract
  by (simp add: list_all_iff)

subsection \<open>C3: records of equal date\<close>

text \<open>
  C3 as stated fails: \<^verbatim>\<open>sort.Sort\<close> does not promise to keep elements that compare equal
  in their order. With the routine of Go up to 1.18 and seven records of one month, the
  first of an earlier day than the six others, the gap-6 pass swaps the first record and
  the last, and the last record of the input comes out before the five of its date that
  preceded it.
\<close>

theorem ties_not_kept_counterexample:
  "sort_contract shellSorter \<and> range_contract id
   \<and> map (\<lambda>g. map Title (Entries g)) (groupEntriesByMonth shellSorter id tiedEntries)
       = [[''e6'', ''e1'', ''e2'', ''e3'', ''e4'', ''e5'', ''e0'']]
   \<and> \<not> list_all (ties_in_input_order tiedEntries)
          (groupEntriesByMonth shellSorter id tiedEntries)"
  using shellSorter_contract id_range_contract tied_unstable
  by (simp add: tied_out tiedEntry_def)

text \<open>
  C3, amended. No two groups compare equal: the key dates are strictly descending, so
  the order of the groups does not depend on how ties are broken. In a group, the records
  of a date are the records of the input with the key of the group and that date, each as
  often; they are in the order of the input whenever \<^verbatim>\<open>sort.Sort\<close> is stable on the slice
  of the group, that is, on the records of the input with the key of the group, in the
  order of the input. \<^verbatim>\<open>sort.Sort\<close> does not promise this for any slice.
\<close>

theorem ties_kept_by_stable_sort:
  assumes "sort_contract srt" and "range_contract iter"
  shows "sorted_wrt (\<lambda>g h. time_After (Date_g g) (Date_g h))
           (groupEntriesByMonth srt iter entries)
         \<and> (\<forall>g \<in> set (groupEntriesByMonth srt iter entries). \<forall>d.
               mset (filter (\<lambda>e. time_Equal (Date e) d) (Entries g))
                 = mset (filter (\<lambda>e. time_Equal (Date e) d)
                     (filter (\<lambda>e. newTime e = Date_g g) entries)))
         \<and> (\<forall>g \<in> set (groupEntriesByMonth srt iter entries).
               sorts_stably srt entrySlice_Less (filter (\<lambda>e. newTime e = Date_g g) entries)
               \<longrightarrow> ties_in_input_order entries g)"
proof (intro conjI ballI allI impI)
  show "sorted_wrt (\<lambda>g h. time_After (Date_g g) (Date_g h))
          (groupEntriesByMonth srt iter entries)"
    using assms by (rule groups_strictly_descending)
next
  fix g d assume "g \<in> set (groupEntriesByMonth srt iter entries)"
  then have "mset (Entries g) = filter_mset (\<lambda>e. newTime e = Date_g g) (mset entries)"
    using assms by (simp add: group_entries_mset(3))
  then show "mset (filter (\<lambda>e. time_Equal (Date e) d) (Entries g))
      = mset (filter (\<lambda>e. time_Equal (Date e) d)
          (filter (\<lambda>e. newTime e = Date_g g) entries))"
    by (simp only: mset_filter)
next
  fix g assume g: "g \<in> set (groupEntriesByMonth srt iter entries)"
    and st: "sorts_stably srt entrySlice_Less (filter (\<lambda>e. newTime e = Date_g g) entries)"
  have "g = sortedGroupOf srt entries (Date_g g)"
    using assms g by (rule group_entries_mset(2))
  moreover have "ties_in_input_order entries (sortedGroupOf srt entries (Date_g g))"
    using assms(1) st by (rule sortedGroupOf_ties)
  ultimately show "ties_in_input_order entries g"
    by simp
qed

text \<open>
  The theorem at the same seven records with the insertion sort, which is what
  \<^verbatim>\<open>sort.Sort\<close> does on a slice of seven elements from Go 1.19 on: it is stable on the
  slice of the one group, and the six records of January 9 keep their order.
\<close>

theorem ties_kept_by_stable_sort_witness:
  "sort_contract insertionSorter \<and> range_contract id
   \<and> list_all
        (\<lambda>g. sorts_stably insertionSorter entrySlice_Less
               (filter (\<lambda>e. newTime e = Date_g g) tiedEntries))
        (groupEntriesByMonth insertionSorter id tiedEntries)
   \<and> sorted_wrt (\<lambda>g h. time_After (Date_g g) (Date_g h))
         (groupEntriesByMonth insertionSorter id tiedEntries)
   \<and> list_all (ties_in_input_order tiedEntries)
         (groupEntriesByMonth insertionSorter id tiedEntries)"
  using ties_kept_by_stable_sort [OF insertionSorter_contract id_range_contract, of tiedEntries]
    insertionSorter_contract id_range_contract insertionSorter_sorts_stably
  by (simp add: list_all_iff)

subsection \<open>C4: records with no date\<close>

text \<open>
  C4 as stated fails: the zero \<^verbatim>\<open>time.Time\<close> is January 1 of year 1, not of year 0, so
  the group of a record with no date has year 1 and month 1, and no group has year 0.
\<close>

theorem zero_date_year_counterexample:
  "map (\<lambda>g. (time_Year (Date_g g), time_Month (Date_g g), map Title (Entries g)))
     (groupEntriesByMonth insertionSorter id [undatedEntry]) = [(1, 1, [''undated''])]
   \<and> \<not> list_ex (\<lambda>g. time_Year (Date_g g) = 0)
         (groupEntriesByMonth insertionSorter id [undatedEntry])"
proof -
  have "Title undatedEntry = ''undated''"
    by (simp add: undatedEntry_def)
  then show ?thesis
    by (simp add: undated_groups zeroTime_Year zeroTime_Month)
qed

text \<open>
  C4, amended. For every record of the input whose date is the zero value,
  groupEntriesByMonth puts it in the group whose key is
  \<^verbatim>\<open>time.Date(1, 1, 1, 0, 0, 0, 0, time.UTC)\<close>, of year 1 and month 1; that group holds all
  the records of the input with the zero date, and no other group holds one.
\<close>

theorem zero_date_group:
  assumes "sort_contract srt" and "range_contract iter"
    and "e \<in> set entries" and "Date e = zeroTime"
  shows "\<exists>g \<in> set (groupEntriesByMonth srt iter entries).
           Date_g g = time_Date 1 1 1 0 0 0 0
           \<and> time_Year (Date_g g) = 1 \<and> time_Month (Date_g g) = 1
           \<and> (\<forall>e' \<in> set entries. Date e' = zeroTime \<longrightarrow> e' \<in> set (Entries g))
           \<and> (\<forall>h \<in> set (groupEntriesByMonth srt iter entries).
                 (\<exists>e' \<in> set (Entries h). Date e' = zeroTime) \<longrightarrow> h = g)"
proof -
  let ?out = "groupEntriesByMonth srt iter entries"
  let ?g = "sortedGroupOf srt entries zeroTime"
  have k: "newTime e' = zeroTime" if "Date e' = zeroTime" for e'
    using that by (rule newTime_zero)
  have g: "?g \<in> set ?out"
    using group_of_entry(1) [OF assms(1,2,3)] k [OF assms(4)] by simp
  have d: "Date_g ?g = zeroTime"
    by (simp add: sortedGroupOf_def)
  have all: "e' \<in> set (Entries ?g)" if "e' \<in> set entries" "Date e' = zeroTime" for e'
    using group_of_entry(2) [OF assms(1,2) that(1)] k [OF that(2)] by simp
  have one: "h = ?g" if h: "h \<in> set ?out" and e': "e' \<in> set (Entries h)" "Date e' = zeroTime"
    for h e'
  proof -
    have "e' \<in># mset (Entries h)" using e'(1) by simp
    then have "e' \<in> set entries"
      unfolding group_entries_mset(3) [OF assms(1,2) h] by simp
    then show ?thesis
      using group_of_entry(3) [OF assms(1,2) _ h e'(1)] k [OF e'(2)] by simp
  qed
  show ?thesis
    using g d all one by (intro bexI [of _ ?g]) (auto simp: zeroTime_key zeroTime_Year zeroTime_Month)
qed

text \<open>The theorem at an input of one record with no date.\<close>

theorem zero_date_group_witness:
  "sort_contract insertionSorter \<and> range_contract id
   \<and> undatedEntry \<in> set [undatedEntry] \<and> Date undatedEntry = zeroTime
   \<and> (\<exists>g \<in> set (groupEntriesByMonth insertionSorter id [undatedEntry]).
           Date_g g = time_Date 1 1 1 0 0 0 0
           \<and> time_Year (Date_g g) = 1 \<and> time_Month (Date_g g) = 1
           \<and> undatedEntry \<in> set (Entries g))"
proof -
  have 1: "undatedEntry \<in> set [undatedEntry]" by simp
  have 2: "Date undatedEntry = zeroTime" by (simp add: undatedEntry_def)
  show ?thesis
    using zero_date_group [OF insertionSorter_contract id_range_contract 1 2]
      insertionSorter_contract id_range_contract 2
    by auto
qed

subsection \<open>C5: titles and descriptions are escaped\<close>

text \<open>
  C5. In the list item of every record the title and the description (or the placeholder
  of an empty description) stand escaped by \<^verbatim>\<open>html.EscapeString\<close>, and the output of
  makeListHTML is made of the headers and of these list items. An escaped text has no
  \<^verbatim>\<open><\<close> and no \<^verbatim>\<open>>\<close>. So, for every sequence of groups and whatever the order of
  the walk over each map of attributes, each \<^verbatim>\<open><\<close> of the output starts one of the tags
  that the program writes itself, and the output has no \<^verbatim>\<open><script\<close>: a title
  \<^verbatim>\<open><script>\<close> is rendered as \<^verbatim>\<open>&lt;script&gt;\<close>.
\<close>

theorem makeListHTML_escapes_texts:
  "listItem ords article =
     ''<li><details><summary><a''
       @ getAttributes (ords AnchorAttrs [(''href'', URL article), (''rel'', ''noopener'')])
       @ ''>'' @ escape (Title article) @ ''</a>''
       @ escape ('' - '' @ time_Format_dateFormat (Date article))
       @ ''</summary><div''
       @ getAttributes (ords DescriptionAttrs [(''class'', ''description'')])
       @ ''><div>Description:<i>''
       @ escape (if Description article \<noteq> [] then Description article else ''<none>'')
       @ ''</i></div>''
       @ (if Image_e article \<noteq> []
          then ''<div>Image:<br /><img''
                 @ getAttributes
                     (ords ImageAttrs
                        [(''src'', Image_e article), (''loading'', ''lazy''),
                         (''style'', ''max-width: 256px;'')])
                 @ '' /></div>''
          else [])
       @ ''</div></details></li>''
   \<and> makeListHTML allOrds groups =
       ''<div>''
         @ concat (map (\<lambda>(i, grp).
             ''<h2>'' @ escape (month_String (time_Month (Date_g grp)) @ '' ''
                                 @ itoa (time_Year (Date_g grp))) @ ''</h2>''
               @ ''<ul>''
               @ concat (map (\<lambda>(j, a). listItem (allOrds i j) a) (enumerate 0 (Entries grp)))
               @ ''</ul>'') (enumerate 0 groups))
         @ ''</div>''
   \<and> CHR ''<'' \<notin> set (escape s) \<and> CHR ''>'' \<notin> set (escape s)
   \<and> own_markup (makeListHTML allOrds groups)
   \<and> \<not> sublist ''<script'' (makeListHTML allOrds groups)"
proof (intro conjI)
  show "listItem ords article =
     ''<li><details><summary><a''
       @ getAttributes (ords AnchorAttrs [(''href'', URL article), (''rel'', ''noopener'')])
       @ ''>'' @ escape (Title article) @ ''</a>''
       @ escape ('' - '' @ time_Format_dateFormat (Date article))
       @ ''</summary><div''
       @ getAttributes (ords DescriptionAttrs [(''class'', ''description'')])
       @ ''><div>Description:<i>''
       @ escape (if Description article \<noteq> [] then Description article else ''<none>'')
       @ ''</i></div>''
       @ (if Image_e article \<noteq> []
          then ''<div>Image:<br /><img''
                 @ getAttributes
                     (ords ImageAttrs
                        [(''src'', Image_e article), (''loading'', ''lazy''),
                         (''style'', ''max-width: 256px;'')])
                 @ '' /></div>''
          else [])
       @ ''</div></details></li>''"
    by (simp add: listItem_shape renderAnchor_shape)
  show "makeListHTML allOrds groups =
       ''<div>''
         @ concat (map (\<lambda>(i, grp).
             ''<h2>'' @ escape (month_String (time_Month (Date_g grp)) @ '' ''
                                 @ itoa (time_Year (Date_g grp))) @ ''</h2>''
               @ ''<ul>''
               @ concat (map (\<lambda>(j, a). listItem (allOrds i j) a) (enumerate 0 (Entries grp)))
               @ ''</ul>'') (enumerate 0 groups))
         @ ''</div>''"
    by (simp add: makeListHTML_shape groupPart_shape)
  show "CHR ''<'' \<notin> set (escape s)" by (rule escape_no_lt)
  show "CHR ''>'' \<notin> set (escape s)" by (rule escape_no_gt)
  show "own_markup (makeListHTML allOrds groups)" by (rule own_markup_makeListHTML)
  then show "\<not> sublist ''<script'' (makeListHTML allOrds groups)"
    by (rule own_markup_no_script)
qed

text \<open>
  The theorem at a record whose title is \<^verbatim>\<open><script>\<close> and whose description is
  \<^verbatim>\<open>a<b>&c\<close>, every map walked in the order in which it is written.
\<close>

theorem makeListHTML_escapes_texts_witness:
  "listItem (\<lambda>m. id) scriptEntry =
     ''<li><details><summary><a''
       @ getAttributes [(''href'', ''https://d.example''), (''rel'', ''noopener'')]
       @ ''>&lt;script&gt;</a> - 2023-03-07</summary><div''
       @ getAttributes [(''class'', ''description'')]
       @ ''><div>Description:<i>a&lt;b&gt;&amp;c</i></div></div></details></li>''
   \<and> CHR ''<'' \<notin> set (escape ''<script>'')
   \<and> own_markup
         (makeListHTML (\<lambda>i j m. id) [\<lparr>Date_g = newTime scriptEntry, Entries = [scriptEntry]\<rparr>])
   \<and> \<not> sublist ''<script''
         (makeListHTML (\<lambda>i j m. id) [\<lparr>Date_g = newTime scriptEntry, Entries = [scriptEntry]\<rparr>])"
proof -
  note t = makeListHTML_escapes_texts
    [of "\<lambda>m. id" scriptEntry "\<lambda>i j m. id"
        "[\<lparr>Date_g = newTime scriptEntry, Entries = [scriptEntry]\<rparr>]" "''<script>''"]
  have "listItem (\<lambda>m. id) scriptEntry =
     ''<li><details><summary><a''
       @ getAttributes [(''href'', ''https://d.example''), (''rel'', ''noopener'')]
       @ ''>&lt;script&gt;</a> - 2023-03-07</summary><div''
       @ getAttributes [(''class'', ''description'')]
       @ ''><div>Description:<i>a&lt;b&gt;&amp;c</i></div></div></details></li>''"
    using t [THEN conjunct1] by (simp add: scriptEntry_def march7 escape_def escapeChar_def)
  then show ?thesis
    using t [THEN conjunct2, THEN conjunct2] by blast
qed

subsection \<open>C6: the listing of no groups\<close>

text \<open>
  C6 as stated fails: for an input of no records groupEntriesByMonth returns no groups,
  and makeListHTML of no groups is \<^verbatim>\<open><div></div>\<close>, not the empty string.
\<close>

theorem empty_listing_counterexample:
  "groupEntriesByMonth insertionSorter id [] = []
   \<and> makeListHTML (\<lambda>i j m. id) (groupEntriesByMonth insertionSorter id []) = ''<div></div>''
   \<and> makeListHTML (\<lambda>i j m. id) (groupEntriesByMonth insertionSorter id []) \<noteq> []"
  by (simp add: groupEntriesByMonth_Nil [OF insertionSorter_contract id_range_contract]
      makeListHTML_Nil)

text \<open>
  C6, amended. For the empty sequence of groups, which is what groupEntriesByMonth
  returns for an input of no records, makeListHTML returns the fragment
  \<^verbatim>\<open><div></div>\<close>: the enclosing element with no header and no list in it.
\<close>

theorem empty_listing_is_empty_div:
  assumes "sort_contract srt" and "range_contract iter"
  shows "groupEntriesByMonth srt iter [] = []
         \<and> makeListHTML ords (groupEntriesByMonth srt iter []) = ''<div></div>''"
  by (simp add: groupEntriesByMonth_Nil [OF assms] makeListHTML_Nil)

text \<open>The theorem at the routine of Go up to 1.18, the map walked backwards.\<close>

theorem empty_listing_is_empty_div_witness:
  "sort_contract shellSorter \<and> range_contract rev
   \<and> groupEntriesByMonth shellSorter rev [] = []
   \<and> makeListHTML (\<lambda>i j m. rev) (groupEntriesByMonth shellSorter rev []) = ''<div></div>''"
  using empty_listing_is_empty_div
      [OF shellSorter_contract rev_range_contract, of "\<lambda>i j m. rev"]
    shellSorter_contract rev_range_contract
  by blast

subsection \<open>C7: what two runs can differ in\<close>

text \<open>
  C7 as stated fails: two runs on the same input need not produce the same text. The
  attributes of each tag are written by a walk over a Go map, in an order drawn anew for
  every tag and every run. On the input of one record, the first row of the example, a
  run that walks every map of attributes in the order in which it is written and a run
  that walks them backwards give two different documents (the anchor has
  \<^verbatim>\<open>href\<close> before \<^verbatim>\<open>rel\<close> in the one, \<^verbatim>\<open>rel\<close> before \<^verbatim>\<open>href\<close> in the other), with the
  same sorting routine and the same walk over \<^verbatim>\<open>groupMap\<close>.
\<close>

theorem attribute_order_counterexample:
  "sort_contract insertionSorter \<and> range_contract id
   \<and> makeListHTML (\<lambda>i j m. id) (groupEntriesByMonth insertionSorter id [entryA])
       \<noteq> makeListHTML (\<lambda>i j m. rev) (groupEntriesByMonth insertionSorter id [entryA])"
proof -
  have g: "groupEntriesByMonth insertionSorter id [entryA]
             = [\<lparr>Date_g = newTime entryA, Entries = [entryA]\<rparr>]"
    using insertionSorter_contract id_range_contract by (rule groupEntriesByMonth_single)
  have "makeListHTML (\<lambda>i j m. id) [\<lparr>Date_g = newTime entryA, Entries = [entryA]\<rparr>]
          \<noteq> makeListHTML (\<lambda>i j m. rev) [\<lparr>Date_g = newTime entryA, Entries = [entryA]\<rparr>]"
    by (simp add: makeListHTML_shape groupPart_shape listItem_shape renderAnchor_shape
        getAttributes_def escape_def escapeChar_def)
  then show ?thesis
    using insertionSorter_contract id_range_contract by (simp only: g simp_thms)
qed

text \<open>
  C7, amended. The grouping is deterministic: for every input sequence of records, two
  runs of groupEntriesByMonth that walk \<^verbatim>\<open>groupMap\<close> in different orders return the same
  groups in the same order. The rendering is deterministic but for the order of the
  attributes inside a tag: the two runs produce identical output whenever the walks over
  the maps of attributes are the same in both.
\<close>

theorem pipeline_independent_of_map_order:
  assumes "sort_contract srt" and "range_contract iter1" and "range_contract iter2"
  shows "groupEntriesByMonth srt iter1 entries = groupEntriesByMonth srt iter2 entries
         \<and> makeListHTML ords (groupEntriesByMonth srt iter1 entries)
             = makeListHTML ords (groupEntriesByMonth srt iter2 entries)"
  using groups_iter_independent [OF assms, of entries] by simp

text \<open>
  The theorem at the two rows of the example, \<^verbatim>\<open>groupMap\<close> walked forwards and
  backwards, the maps of attributes walked backwards in both runs.
\<close>

theorem pipeline_independent_of_map_order_witness:
  "sort_contract shellSorter \<and> range_contract id \<and> range_contract rev
   \<and> groupEntriesByMonth shellSorter id exampleEntries
       = groupEntriesByMonth shellSorter rev exampleEntries
   \<and> makeListHTML (\<lambda>i j m. rev) (groupEntriesByMonth shellSorter id exampleEntries)
       = makeListHTML (\<lambda>i j m. rev) (groupEntriesByMonth shellSorter rev exampleEntries)"
  using pipeline_independent_of_map_order
      [OF shellSorter_contract id_range_contract rev_range_contract, of exampleEntries
        "\<lambda>i j m. rev"]
    shellSorter_contract id_range_contract rev_range_contract
  by blast

subsection \<open>C8: no output file when a stage fails\<close>

text \<open>
  C8. The claim holds for a file that cannot be read, a table that cannot be decoded and
  a template that cannot be parsed (lemmas \<open>GenerateSite_read_error\<close>,
  \<open>GenerateSite_csv_error\<close>, \<open>GenerateSite_parse_error\<close>: the error is returned and the
  files are as before). It fails for a template that parses and cannot be executed: the
  program drops the error of \<^verbatim>\<open>tpl.Execute\<close>. With a table of no records and such a
  template, GenerateSite returns nil and the output file holds what was written before
  the failure.
\<close>

theorem GenerateSite_execute_error_writes_file:
  "GenerateSite (exampleWorld failingExecute ''<html>{{.Missing}}'') exampleFiles
     = (None, \<lparr>dirs = [''.site''],
               files = [(''readingList.csv'', headerOnly), (''.site/index.html'', ''<html>'')]\<rparr>)"
  by (simp add: GenerateSite_def exampleWorld_def exampleFiles_def simple_ReadFile_def
      decodeHeaderOnly_def renderHTMLPage_def failingExecute_def simple_Mkdir_def
      simple_WriteFile_def Let_def)

subsection \<open>C9: renderHTMLPage fails when the template cannot be parsed, and only then\<close>

text \<open>
  C9. renderHTMLPage returns an error exactly when the embedded template cannot be
  parsed, and the error is the one of \<^verbatim>\<open>Parse\<close>; it fails for one title, title bar,
  content and extra head content exactly when it fails for any other: no failure depends
  on the data.
\<close>

theorem renderHTMLPage_fails_iff_parse_fails:
  "(renderHTMLPage T pageTemplate title titleBar pageContent extraHeadeContent = Inl err
      \<longleftrightarrow> tpl_Parse T pageTemplate = Inl err)
   \<and> (renderHTMLPage T pageTemplate title titleBar pageContent extraHeadeContent = Inl err
      \<longleftrightarrow> renderHTMLPage T pageTemplate title' titleBar' pageContent' extraHeadeContent'
            = Inl err)"
  by (simp add: renderHTMLPage_Inl)

text \<open>The theorem at a template engine that rejects the template.\<close>

theorem renderHTMLPage_fails_iff_parse_fails_witness:
  "renderHTMLPage failingParse ''{{'' ''t'' ''bar'' ''content'' [] = Inl (Error ''unclosed action'')
   \<and> tpl_Parse failingParse ''{{'' = Inl (Error ''unclosed action'')"
  using renderHTMLPage_fails_iff_parse_fails
    [of failingParse "''{{''" "''t''" "''bar''" "''content''" "[]" "Error ''unclosed action''"]
  by (simp add: failingParse_def)

subsection \<open>C10: the error of the execution is dropped\<close>

text \<open>
  C10. If the embedded template is parsed, renderHTMLPage returns a nil error and the
  bytes that \<^verbatim>\<open>tpl.Execute\<close> wrote to the buffer, whatever error \<^verbatim>\<open>tpl.Execute\<close>
  returned: after a failed execution these are the bytes written before the failure.
\<close>

theorem renderHTMLPage_drops_execute_error:
  assumes "tpl_Parse T pageTemplate = Inr tpl"
  shows "renderHTMLPage T pageTemplate title titleBar pageContent extraHeadeContent
           = Inr (fst (tpl_Execute T tpl
                   \<lparr>Title_t = title, Content_t = pageContent, PageTitleBar_t = titleBar,
                    ExtraHeadContent_t = extraHeadeContent\<rparr>))"
  using assms by (rule renderHTMLPage_Inr)

text \<open>
  The theorem at a template engine that writes \<^verbatim>\<open><html>\<close> and then fails.
\<close>

theorem renderHTMLPage_drops_execute_error_witness:
  "tpl_Parse failingExecute ''<html>{{.Missing}}'' = Inr ''<html>{{.Missing}}''
   \<and> snd (tpl_Execute failingExecute ''<html>{{.Missing}}''
           \<lparr>Title_t = ''t'', Content_t = ''content'', PageTitleBar_t = ''bar'',
            ExtraHeadContent_t = []\<rparr>) \<noteq> None
   \<and> renderHTMLPage failingExecute ''<html>{{.Missing}}'' ''t'' ''bar'' ''content'' [] = Inr ''<html>''"
proof -
  have p: "tpl_Parse failingExecute ''<html>{{.Missing}}'' = Inr ''<html>{{.Missing}}''"
    by (simp add: failingExecute_def)
  show ?thesis
    using p renderHTMLPage_drops_execute_error [OF p, of "''t''" "''bar''" "''content''" "[]"]
    by (simp add: failingExecute_def)
qed

end
